theory Spec2Isabelle
  imports Complex_Main
begin

section \<open>Tensors\<close>

text \<open>
  A tensor is its static shape and its elements in row-major order, as TensorFlow and
  NumPy store it. Element values of the float tensors of \<open>call\<close> are real numbers:
  the rounding of float32 is not part of this model of \<open>call\<close>.

  The program never raises on NaN: a mean over no elements, a division by zero or the
  root of a negative number yields NaN or an infinity, and the run goes on with it.
  Real numbers cannot hold these values, so a run of the model ends at the first of them
  with the outcome \<open>NotANumber\<close>. It is no exception: it stands for a run of the
  program that goes on with NaN. A result \<open>Inr\<close> of the model is a run on which
  every value is a number. The other errors are the exceptions the library raises.
  The section on float32 values below has NaN and the infinities as values, for
  \<open>calc_euclidian_dists\<close> alone.
\<close>

record 'a tensor =
  shape :: "nat list"
  buf :: "'a list"

datatype error =
  InvalidArgumentError | ValueError | IndexError | RecursionError | OSError | NotANumber

definition bnd :: "error + 'a \<Rightarrow> ('a \<Rightarrow> error + 'b) \<Rightarrow> error + 'b" where
  "bnd m f = (case m of Inl e \<Rightarrow> Inl e | Inr v \<Rightarrow> f v)"

definition wf_tensor :: "'a tensor \<Rightarrow> bool" where
  "wf_tensor t = (length (buf t) = prod_list (shape t))"

text \<open>Row-major offsets: \<open>ravel\<close> maps a multi-index to its offset, \<open>unravel\<close> back.\<close>

fun ravel :: "nat list \<Rightarrow> nat list \<Rightarrow> nat" where
  "ravel (d # ds) (i # is) = i * prod_list ds + ravel ds is"
| "ravel _ _ = 0"

fun unravel :: "nat list \<Rightarrow> nat \<Rightarrow> nat list" where
  "unravel [] k = []"
| "unravel (d # ds) k = (k div prod_list ds) # unravel ds (k mod prod_list ds)"

definition in_bounds :: "nat list \<Rightarrow> nat list \<Rightarrow> bool" where
  "in_bounds sh idx = list_all2 (\<lambda>i d. i < d) idx sh"

definition elem :: "'a tensor \<Rightarrow> nat list \<Rightarrow> 'a" where
  "elem t idx = buf t ! ravel (shape t) idx"

definition tabulate :: "nat list \<Rightarrow> (nat list \<Rightarrow> 'a) \<Rightarrow> 'a tensor" where
  "tabulate sh f = \<lparr>shape = sh, buf = map (\<lambda>k. f (unravel sh k)) [0..<prod_list sh]\<rparr>"

subsection \<open>The TensorFlow and NumPy operations the program calls\<close>

text \<open>\<open>t.shape[k]\<close>: IndexError beyond the rank.\<close>

definition dim :: "'a tensor \<Rightarrow> nat \<Rightarrow> error + nat" where
  "dim t k = (if k < length (shape t) then Inr (shape t ! k) else Inl IndexError)"

text \<open>A Python axis argument counts from the end when it is negative.\<close>

definition normalize_axis :: "nat \<Rightarrow> int \<Rightarrow> nat option" where
  "normalize_axis rank a =
     (if 0 \<le> a \<and> a < int rank then Some (nat a)
      else if - int rank \<le> a \<and> a < 0 then Some (nat (int rank + a))
      else None)"

text \<open>
  \<open>tf.reshape(t, dims)\<close>: the elements stay as they are. At most one entry of
  \<open>dims\<close> is -1 and is inferred, and the sizes must agree. When another entry of
  \<open>dims\<close> is 0 the kernel infers the -1 entry from the axes of the input and of
  \<open>dims\<close> that are not 0; the input must then have no elements.
\<close>

definition tf_reshape :: "'a tensor \<Rightarrow> int list \<Rightarrow> error + 'a tensor" where
  "tf_reshape t dims =
     (let n = int (length (buf t)); known = filter (\<lambda>d. d \<noteq> - 1) dims in
      if list_ex (\<lambda>d. d < - 1) dims then Inl InvalidArgumentError
      else if length known = length dims then
        (if prod_list dims = n then Inr \<lparr>shape = map nat dims, buf = buf t\<rparr>
         else Inl InvalidArgumentError)
      else if Suc (length known) = length dims then
        (if list_ex (\<lambda>d. d = 0) known then
           (let p = prod_list (filter (\<lambda>d. d \<noteq> 0) known);
                m = int (prod_list (filter (\<lambda>d. d \<noteq> 0) (shape t))) in
            if (list_ex (\<lambda>d. d = 0) (shape t) \<or> m mod p = 0) \<and> n = 0
            then Inr \<lparr>shape = map (\<lambda>d. if d = - 1 then nat (m div p) else nat d) dims,
                     buf = buf t\<rparr>
            else Inl InvalidArgumentError)
         else
           (let p = prod_list known in
            if n mod p \<noteq> 0 then Inl InvalidArgumentError
            else Inr \<lparr>shape = map (\<lambda>d. if d = - 1 then nat (n div p) else nat d) dims,
                     buf = buf t\<rparr>))
      else Inl InvalidArgumentError)"

text \<open>\<open>tf.expand_dims(t, axis)\<close> for a non-negative axis.\<close>

definition tf_expand_dims :: "'a tensor \<Rightarrow> nat \<Rightarrow> error + 'a tensor" where
  "tf_expand_dims t axis =
     (if axis \<le> length (shape t)
      then Inr \<lparr>shape = take axis (shape t) @ [1] @ drop axis (shape t), buf = buf t\<rparr>
      else Inl InvalidArgumentError)"

text \<open>\<open>tf.tile(t, multiples)\<close>: one multiple per axis; the input repeats along each.\<close>

definition tf_tile :: "'a tensor \<Rightarrow> nat list \<Rightarrow> error + 'a tensor" where
  "tf_tile t multiples =
     (if length multiples = length (shape t)
      then Inr (tabulate (map2 (*) (shape t) multiples)
                  (\<lambda>idx. elem t (map2 (\<lambda>i d. i mod d) idx (shape t))))
      else Inl InvalidArgumentError)"

text \<open>
  Binary elementwise operations broadcast: shapes are aligned at their last axes, an
  axis of extent 1 is repeated, and any other mismatch is an error.
\<close>

fun broadcast_rev :: "nat list \<Rightarrow> nat list \<Rightarrow> nat list option" where
  "broadcast_rev [] bs = Some bs"
| "broadcast_rev as [] = Some as"
| "broadcast_rev (a # as) (b # bs) =
     (if a = b \<or> b = 1 then map_option ((#) a) (broadcast_rev as bs)
      else if a = 1 then map_option ((#) b) (broadcast_rev as bs)
      else None)"

definition broadcast_shape :: "nat list \<Rightarrow> nat list \<Rightarrow> nat list option" where
  "broadcast_shape a b = map_option rev (broadcast_rev (rev a) (rev b))"

definition bidx :: "nat list \<Rightarrow> nat list \<Rightarrow> nat list" where
  "bidx sh idx = map2 (\<lambda>d i. if d = 1 then 0 else i) sh (drop (length idx - length sh) idx)"

definition broadcast_op ::
  "('a \<Rightarrow> 'b \<Rightarrow> 'c) \<Rightarrow> 'a tensor \<Rightarrow> 'b tensor \<Rightarrow> error + 'c tensor" where
  "broadcast_op f x y =
     (case broadcast_shape (shape x) (shape y) of
        None \<Rightarrow> Inl InvalidArgumentError
      | Some sh \<Rightarrow>
          Inr (tabulate sh (\<lambda>idx. f (elem x (bidx (shape x) idx)) (elem y (bidx (shape y) idx)))))"

definition tf_subtract :: "real tensor \<Rightarrow> real tensor \<Rightarrow> error + real tensor" where
  "tf_subtract x y = broadcast_op (\<lambda>a b. a - b) x y"

definition tf_multiply :: "real tensor \<Rightarrow> real tensor \<Rightarrow> error + real tensor" where
  "tf_multiply x y = broadcast_op (\<lambda>a b. a * b) x y"

definition tf_equal :: "int tensor \<Rightarrow> int tensor \<Rightarrow> error + bool tensor" where
  "tf_equal x y = broadcast_op (\<lambda>a b. a = b) x y"

definition tf_pow :: "real tensor \<Rightarrow> nat \<Rightarrow> real tensor" where
  "tf_pow t n = \<lparr>shape = shape t, buf = map (\<lambda>v. v ^ n) (buf t)\<rparr>"

definition tf_negative :: "real tensor \<Rightarrow> real tensor" where
  "tf_negative t = \<lparr>shape = shape t, buf = map uminus (buf t)\<rparr>"

text \<open>
  \<open>tf.reduce_sum(t, axis)\<close> and \<open>tf.reduce_mean(t, axis)\<close> drop the axis. The
  mean over an axis of extent 0 is 0/0 for every element of the result.
\<close>

definition reduced_shape :: "nat list \<Rightarrow> nat \<Rightarrow> nat list" where
  "reduced_shape sh ax = take ax sh @ drop (Suc ax) sh"

definition along :: "nat \<Rightarrow> nat list \<Rightarrow> nat \<Rightarrow> nat list" where
  "along ax idx k = take ax idx @ [k] @ drop ax idx"

definition tf_reduce_sum :: "real tensor \<Rightarrow> int \<Rightarrow> error + real tensor" where
  "tf_reduce_sum t axis =
     (case normalize_axis (length (shape t)) axis of
        None \<Rightarrow> Inl InvalidArgumentError
      | Some ax \<Rightarrow>
          Inr (tabulate (reduced_shape (shape t) ax)
                 (\<lambda>idx. sum_list (map (\<lambda>k. elem t (along ax idx k)) [0..<shape t ! ax]))))"

definition tf_reduce_mean :: "real tensor \<Rightarrow> int \<Rightarrow> error + real tensor" where
  "tf_reduce_mean t axis =
     (case normalize_axis (length (shape t)) axis of
        None \<Rightarrow> Inl InvalidArgumentError
      | Some ax \<Rightarrow>
          if shape t ! ax = 0 \<and> 0 < prod_list (reduced_shape (shape t) ax) then Inl NotANumber
          else Inr (tabulate (reduced_shape (shape t) ax)
                 (\<lambda>idx. sum_list (map (\<lambda>k. elem t (along ax idx k)) [0..<shape t ! ax])
                          / real (shape t ! ax))))"

text \<open>\<open>tf.reduce_mean(t)\<close> with no axis: the mean of all elements, a scalar.\<close>

definition tf_reduce_mean_all :: "real tensor \<Rightarrow> error + real" where
  "tf_reduce_mean_all t =
     (if buf t = [] then Inl NotANumber
      else Inr (sum_list (buf t) / real (length (buf t))))"

text \<open>
  \<open>tf.nn.log_softmax(t, axis)\<close>: each element minus the logarithm of the sum of the
  exponentials along the axis.
\<close>

definition tf_log_softmax :: "real tensor \<Rightarrow> int \<Rightarrow> error + real tensor" where
  "tf_log_softmax t axis =
     (case normalize_axis (length (shape t)) axis of
        None \<Rightarrow> Inl InvalidArgumentError
      | Some ax \<Rightarrow>
          Inr (tabulate (shape t)
                 (\<lambda>idx. elem t idx
                    - ln (sum_list (map (\<lambda>k. exp (elem t (idx[ax := k]))) [0..<shape t ! ax])))))"

text \<open>\<open>tf.one_hot(indices, depth)\<close>: a new last axis, 1 at the index and 0 elsewhere.\<close>

definition tf_one_hot :: "int tensor \<Rightarrow> nat \<Rightarrow> real tensor" where
  "tf_one_hot indices depth =
     tabulate (shape indices @ [depth])
       (\<lambda>idx. if int (last idx) = elem indices (butlast idx) then 1 else 0)"

text \<open>
  \<open>tf.argmax(t, axis)\<close>: the index of the largest value along the axis, the smallest
  such index on ties; an empty axis is an error.
\<close>

definition argmax_list :: "real list \<Rightarrow> nat" where
  "argmax_list xs = length (takeWhile (\<lambda>v. v \<noteq> Max (set xs)) xs)"

definition tf_argmax :: "real tensor \<Rightarrow> int \<Rightarrow> error + int tensor" where
  "tf_argmax t axis =
     (case normalize_axis (length (shape t)) axis of
        None \<Rightarrow> Inl InvalidArgumentError
      | Some ax \<Rightarrow>
          if shape t ! ax = 0 then Inl InvalidArgumentError
          else Inr (tabulate (reduced_shape (shape t) ax)
                 (\<lambda>idx. int (argmax_list (map (\<lambda>k. elem t (along ax idx k)) [0..<shape t ! ax])))))"

text \<open>
  \<open>tf.cast\<close>: to int32 an integer wraps around; a boolean becomes 1.0 or 0.0; a float32
  tensor cast to float32 is unchanged.
\<close>

definition wrap_int32 :: "int \<Rightarrow> int" where
  "wrap_int32 v = (v + 2 ^ 31) mod 2 ^ 32 - 2 ^ 31"

definition tf_cast_int32 :: "int tensor \<Rightarrow> int tensor" where
  "tf_cast_int32 t = \<lparr>shape = shape t, buf = map wrap_int32 (buf t)\<rparr>"

definition tf_cast_bool_float32 :: "bool tensor \<Rightarrow> real tensor" where
  "tf_cast_bool_float32 t = \<lparr>shape = shape t, buf = map (\<lambda>b. if b then 1 else 0) (buf t)\<rparr>"

definition tf_cast_float32 :: "real tensor \<Rightarrow> real tensor" where
  "tf_cast_float32 t = t"

text \<open>
  \<open>np.arange(n)\<close> and \<open>tf.range(n)\<close>: the integers below \<open>n\<close>. \<open>np.tile\<close> is
  called with one repetition count per axis, where it is \<open>tf.tile\<close>; indexing with
  \<open>[:, np.newaxis]\<close> is \<open>expand_dims\<close> at axis 1.
\<close>

definition np_arange :: "nat \<Rightarrow> int tensor" where
  "np_arange n = \<lparr>shape = [n], buf = map int [0..<n]\<rparr>"

definition tf_range :: "nat \<Rightarrow> int tensor" where
  "tf_range n = \<lparr>shape = [n], buf = map int [0..<n]\<rparr>"

definition np_tile :: "'a tensor \<Rightarrow> nat list \<Rightarrow> error + 'a tensor" where
  "np_tile t reps = tf_tile t reps"

section \<open>calc_euclidian_dists\<close>

definition calc_euclidian_dists :: "real tensor \<Rightarrow> real tensor \<Rightarrow> error + real tensor" where
  "calc_euclidian_dists x y =
     bnd (dim x 0) (\<lambda>n.
     bnd (dim y 0) (\<lambda>m.
     bnd (tf_expand_dims x 1) (\<lambda>x1.
     bnd (tf_tile x1 [1, m, 1]) (\<lambda>x.
     bnd (tf_expand_dims y 0) (\<lambda>y0.
     bnd (tf_tile y0 [n, 1, 1]) (\<lambda>y.
     bnd (tf_subtract x y) (\<lambda>d.
     tf_reduce_mean (tf_pow d 2) 2)))))))"

section \<open>calc_euclidian_dists on float32 values\<close>

text \<open>
  The distances again, on float32 values instead of real numbers. A float32 value is a
  finite number, an infinity or NaN. Of the rounding of float32 this section keeps the
  range: a result of magnitude \<open>(2 - 2^-24) * 2^127\<close> or more overflows to an
  infinity, and one of magnitude \<open>2^-150\<close> or less underflows to zero. The rounding
  of the significand to 24 bits is left out: a result in range is kept as it is.

  The operations are those \<open>calc_euclidian_dists\<close> calls. The difference of two
  infinities of the same sign is NaN. The power of a finite value is the rounded power,
  that of an infinity an infinity. The mean is the sum, taken from left to right,
  divided by the number of elements; over no elements it is 0/0, NaN. Nothing here
  ends a run: NaN and the infinities are values.
\<close>

datatype float32 = Finite real | PosInf | NegInf | NaN

definition round_float32 :: "real \<Rightarrow> float32" where
  "round_float32 r =
     (if (2 - 1 / 2 ^ 24) * 2 ^ 127 \<le> r then PosInf
      else if r \<le> - ((2 - 1 / 2 ^ 24) * 2 ^ 127) then NegInf
      else if \<bar>r\<bar> \<le> 1 / 2 ^ 150 then Finite 0
      else Finite r)"

fun float32_add :: "float32 \<Rightarrow> float32 \<Rightarrow> float32" where
  "float32_add (Finite a) (Finite b) = round_float32 (a + b)"
| "float32_add NaN b = NaN"
| "float32_add a NaN = NaN"
| "float32_add PosInf NegInf = NaN"
| "float32_add NegInf PosInf = NaN"
| "float32_add PosInf b = PosInf"
| "float32_add NegInf b = NegInf"
| "float32_add a b = b"

fun float32_neg :: "float32 \<Rightarrow> float32" where
  "float32_neg (Finite a) = Finite (- a)"
| "float32_neg PosInf = NegInf"
| "float32_neg NegInf = PosInf"
| "float32_neg NaN = NaN"

definition float32_sub :: "float32 \<Rightarrow> float32 \<Rightarrow> float32" where
  "float32_sub a b = float32_add a (float32_neg b)"

fun float32_pow :: "float32 \<Rightarrow> nat \<Rightarrow> float32" where
  "float32_pow a 0 = Finite 1"
| "float32_pow (Finite a) n = round_float32 (a ^ n)"
| "float32_pow PosInf n = PosInf"
| "float32_pow NegInf n = (if even n then PosInf else NegInf)"
| "float32_pow NaN n = NaN"

fun float32_div_count :: "float32 \<Rightarrow> nat \<Rightarrow> float32" where
  "float32_div_count (Finite a) n =
     (if 0 < n then round_float32 (a / real n)
      else if 0 < a then PosInf else if a < 0 then NegInf else NaN)"
| "float32_div_count a n = a"

definition float32_mean :: "float32 list \<Rightarrow> float32" where
  "float32_mean vs = float32_div_count (foldl float32_add (Finite 0) vs) (length vs)"

definition float32_subtract :: "float32 tensor \<Rightarrow> float32 tensor \<Rightarrow> error + float32 tensor" where
  "float32_subtract x y = broadcast_op float32_sub x y"

definition float32_tensor_pow :: "float32 tensor \<Rightarrow> nat \<Rightarrow> float32 tensor" where
  "float32_tensor_pow t n = \<lparr>shape = shape t, buf = map (\<lambda>v. float32_pow v n) (buf t)\<rparr>"

definition float32_reduce_mean :: "float32 tensor \<Rightarrow> int \<Rightarrow> error + float32 tensor" where
  "float32_reduce_mean t axis =
     (case normalize_axis (length (shape t)) axis of
        None \<Rightarrow> Inl InvalidArgumentError
      | Some ax \<Rightarrow>
          Inr (tabulate (reduced_shape (shape t) ax)
                 (\<lambda>idx. float32_mean (map (\<lambda>k. elem t (along ax idx k)) [0..<shape t ! ax]))))"

definition calc_euclidian_dists_float32 ::
  "float32 tensor \<Rightarrow> float32 tensor \<Rightarrow> error + float32 tensor" where
  "calc_euclidian_dists_float32 x y =
     bnd (dim x 0) (\<lambda>n.
     bnd (dim y 0) (\<lambda>m.
     bnd (tf_expand_dims x 1) (\<lambda>x1.
     bnd (tf_tile x1 [1, m, 1]) (\<lambda>x.
     bnd (tf_expand_dims y 0) (\<lambda>y0.
     bnd (tf_tile y0 [n, 1, 1]) (\<lambda>y.
     bnd (float32_subtract x y) (\<lambda>d.
     float32_reduce_mean (float32_tensor_pow d 2) 2)))))))"

text \<open>A float32 value that is a number, and one that is at least zero or \<open>+\<infinity>\<close>.\<close>

definition is_finite :: "float32 \<Rightarrow> bool" where
  "is_finite v = (case v of Finite r \<Rightarrow> True | _ \<Rightarrow> False)"

definition not_negative :: "float32 \<Rightarrow> bool" where
  "not_negative v = (case v of Finite r \<Rightarrow> 0 \<le> r | PosInf \<Rightarrow> True | _ \<Rightarrow> False)"

section \<open>The Keras layers of the encoder\<close>

text \<open>
  The layers are modelled with their weights built. Images are in the layout
  [batch, rows, columns, channels].

  \<open>Conv2D(filters=64, kernel_size=3, padding="same", activation='relu')\<close>: stride 1,
  one row and one column of zeros on every side, the bias added before the activation.
  The kernel has shape [3, 3, channels, 64].
\<close>

record conv2d =
  kernel :: "real tensor"
  bias :: "real tensor"

definition relu :: "real \<Rightarrow> real" where
  "relu v = max 0 v"

definition padded :: "real tensor \<Rightarrow> nat \<Rightarrow> int \<Rightarrow> int \<Rightarrow> nat \<Rightarrow> real" where
  "padded x n i j ch =
     (if 0 \<le> i \<and> i < int (shape x ! 1) \<and> 0 \<le> j \<and> j < int (shape x ! 2)
      then elem x [n, nat i, nat j, ch] else 0)"

definition conv2d_out :: "conv2d \<Rightarrow> real tensor \<Rightarrow> real tensor" where
  "conv2d_out layer x =
     tabulate [shape x ! 0, shape x ! 1, shape x ! 2, 64]
       (\<lambda>idx. let n = idx ! 0; i = idx ! 1; j = idx ! 2; f = idx ! 3 in
          relu (sum_list (map (\<lambda>a. sum_list (map (\<lambda>b. sum_list (map (\<lambda>ch.
                   padded x n (int i + int a - 1) (int j + int b - 1) ch
                     * elem (kernel layer) [a, b, ch, f])
                 [0..<shape x ! 3])) [0..<3])) [0..<3])
                + elem (bias layer) [f]))"

definition conv2d_call :: "conv2d \<Rightarrow> real tensor \<Rightarrow> error + real tensor" where
  "conv2d_call layer x =
     (if length (shape x) = 4 \<and> shape (kernel layer) = [3, 3, shape x ! 3, 64]
      then Inr (conv2d_out layer x)
      else Inl ValueError)"

text \<open>
  \<open>MaxPool2D()\<close>: windows of 2 by 2, stride 2, no padding; a last odd row or column is
  dropped. The layer has no weights.
\<close>

datatype max_pool2d = MaxPool2D

definition max_pool2d_out :: "real tensor \<Rightarrow> real tensor" where
  "max_pool2d_out x =
     tabulate [shape x ! 0, shape x ! 1 div 2, shape x ! 2 div 2, shape x ! 3]
       (\<lambda>idx. let n = idx ! 0; i = idx ! 1; j = idx ! 2; ch = idx ! 3 in
          max (max (elem x [n, 2 * i, 2 * j, ch]) (elem x [n, 2 * i, 2 * j + 1, ch]))
              (max (elem x [n, 2 * i + 1, 2 * j, ch]) (elem x [n, 2 * i + 1, 2 * j + 1, ch])))"

definition max_pool2d_call :: "max_pool2d \<Rightarrow> real tensor \<Rightarrow> error + real tensor" where
  "max_pool2d_call layer x =
     (if length (shape x) = 4 then Inr (max_pool2d_out x) else Inl ValueError)"

text \<open>
  \<open>BatchNormalization()\<close>: over the last axis, momentum 0.99, epsilon 0.001, with scale
  \<open>gamma\<close> and offset \<open>beta\<close>. With \<open>training=True\<close> the layer normalises with the mean
  and variance of the batch, taken per channel over batch, rows and columns, and moves
  its running statistics towards them; with \<open>training=False\<close> it normalises with the
  running statistics and leaves them alone. The batch variance the layer normalises
  with is the mean squared deviation; the one the running variance moves towards
  carries Bessel's correction (the factor \<open>n / (n - 1)\<close> for \<open>n > 1\<close> values per
  channel), as the fused kernel of tf.keras 2 computes it for images.
\<close>

record batch_norm =
  gamma :: "real tensor"
  beta :: "real tensor"
  moving_mean :: "real tensor"
  moving_variance :: "real tensor"

definition momentum :: real where
  "momentum = 99 / 100"

definition epsilon :: real where
  "epsilon = 1 / 1000"

definition sum_nhw :: "real tensor \<Rightarrow> (nat \<Rightarrow> nat \<Rightarrow> nat \<Rightarrow> real) \<Rightarrow> real" where
  "sum_nhw x f =
     sum_list (map (\<lambda>n. sum_list (map (\<lambda>i. sum_list (map (\<lambda>j. f n i j)
       [0..<shape x ! 2])) [0..<shape x ! 1])) [0..<shape x ! 0])"

definition count_nhw :: "real tensor \<Rightarrow> nat" where
  "count_nhw x = shape x ! 0 * shape x ! 1 * shape x ! 2"

definition channel_mean :: "real tensor \<Rightarrow> nat \<Rightarrow> real" where
  "channel_mean x ch = sum_nhw x (\<lambda>n i j. elem x [n, i, j, ch]) / real (count_nhw x)"

definition channel_variance :: "real tensor \<Rightarrow> nat \<Rightarrow> real" where
  "channel_variance x ch =
     sum_nhw x (\<lambda>n i j. (elem x [n, i, j, ch] - channel_mean x ch) ^ 2) / real (count_nhw x)"

definition unbiased_variance :: "real tensor \<Rightarrow> nat \<Rightarrow> real" where
  "unbiased_variance x ch =
     channel_variance x ch * (real (count_nhw x) / real (max (count_nhw x - 1) 1))"

definition normalise :: "batch_norm \<Rightarrow> real tensor \<Rightarrow> (nat \<Rightarrow> real) \<Rightarrow> (nat \<Rightarrow> real) \<Rightarrow> real tensor" where
  "normalise layer x mean variance =
     tabulate (shape x)
       (\<lambda>idx. let ch = idx ! 3 in
          (elem x idx - mean ch) / sqrt (variance ch + epsilon) * elem (gamma layer) [ch]
            + elem (beta layer) [ch])"

definition update_moving :: "batch_norm \<Rightarrow> real tensor \<Rightarrow> batch_norm" where
  "update_moving layer x =
     layer\<lparr>moving_mean := tabulate (shape (moving_mean layer))
              (\<lambda>idx. elem (moving_mean layer) idx * momentum
                       + channel_mean x (idx ! 0) * (1 - momentum)),
           moving_variance := tabulate (shape (moving_variance layer))
              (\<lambda>idx. elem (moving_variance layer) idx * momentum
                       + unbiased_variance x (idx ! 0) * (1 - momentum))\<rparr>"

definition batch_norm_call ::
  "batch_norm \<Rightarrow> real tensor \<Rightarrow> bool \<Rightarrow> error + (real tensor \<times> batch_norm)" where
  "batch_norm_call layer x training =
     (if length (shape x) = 4 \<and> shape (gamma layer) = [shape x ! 3]
         \<and> shape (beta layer) = [shape x ! 3] \<and> shape (moving_mean layer) = [shape x ! 3]
         \<and> shape (moving_variance layer) = [shape x ! 3] then
        if training then
          if count_nhw x = 0 \<and> 0 < shape x ! 3 then Inl NotANumber
          else Inr (normalise layer x (channel_mean x) (channel_variance x),
                    update_moving layer x)
        else
          if 0 < prod_list (shape x)
             \<and> list_ex (\<lambda>ch. elem (moving_variance layer) [ch] + epsilon \<le> 0) [0..<shape x ! 3]
          then Inl NotANumber
          else Inr (normalise layer x (\<lambda>ch. elem (moving_mean layer) [ch])
                      (\<lambda>ch. elem (moving_variance layer) [ch]),
                    layer)
      else Inl ValueError)"

text \<open>\<open>Flatten()\<close>: every axis after the first becomes one.\<close>

definition flatten_call :: "real tensor \<Rightarrow> error + real tensor" where
  "flatten_call x =
     (case shape x of
        [] \<Rightarrow> Inl ValueError
      | n # rest \<Rightarrow> Inr \<lparr>shape = [n, prod_list rest], buf = buf x\<rparr>)"

section \<open>Prototypical\<close>

text \<open>
  The model object: the image size given to the constructor and the three lists of four
  layers each the constructor builds.
\<close>

record prototypical =
  self_w :: nat
  self_h :: nat
  self_c :: nat
  conv_layers :: "conv2d list"
  max_pool_layers :: "max_pool2d list"
  batch_norm_layers :: "batch_norm list"

text \<open>\<open>xs[i]\<close> on a Python list.\<close>

definition index_list :: "'a list \<Rightarrow> nat \<Rightarrow> error + 'a" where
  "index_list xs i = (if i < length xs then Inr (xs ! i) else Inl IndexError)"

text \<open>
  One pass of the loop body of \<open>call\<close>: convolution, pooling, batch normalisation with
  the given \<open>training\<close> argument. The batch normalisation layer keeps its new running
  statistics.
\<close>

definition block ::
  "nat \<Rightarrow> bool \<Rightarrow> prototypical \<Rightarrow> real tensor \<Rightarrow> error + (real tensor \<times> prototypical)" where
  "block i training self x =
     bnd (index_list (conv_layers self) i) (\<lambda>conv.
     bnd (conv2d_call conv x) (\<lambda>x.
     bnd (index_list (max_pool_layers self) i) (\<lambda>pool.
     bnd (max_pool2d_call pool x) (\<lambda>x.
     bnd (index_list (batch_norm_layers self) i) (\<lambda>bn.
     bnd (batch_norm_call bn x training) (\<lambda>(x, bn').
     Inr (x, self\<lparr>batch_norm_layers := (batch_norm_layers self)[i := bn']\<rparr>)))))))"

text \<open>The loop \<open>for i in range(len(self.conv_layers))\<close>, over the list of its indices.\<close>

fun encoder ::
  "nat list \<Rightarrow> bool \<Rightarrow> prototypical \<Rightarrow> real tensor \<Rightarrow> error + (real tensor \<times> prototypical)" where
  "encoder [] training self x = Inr (x, self)"
| "encoder (i # is) training self x =
     bnd (block i training self x) (\<lambda>(x, self). encoder is training self x)"

text \<open>Lines 67 to 72 of \<open>call\<close>: the labels. \<open>target_inds\<close> is computed and never used.\<close>

definition labels :: "nat \<Rightarrow> nat \<Rightarrow> error + (int tensor \<times> real tensor)" where
  "labels n_class n_query =
     bnd (tf_expand_dims (np_arange n_class) 1) (\<lambda>column.
     bnd (np_tile column [1, n_query]) (\<lambda>y.
     let y_onehot = tf_cast_float32 (tf_one_hot y n_class) in
     bnd (tf_reshape (tf_range n_class) [int n_class, 1]) (\<lambda>target_inds.
     bnd (tf_tile target_inds [1, n_query]) (\<lambda>target_inds.
     Inr (y, y_onehot)))))"

text \<open>
  Lines 74 to 94: the support path with \<open>training=True\<close>, the prototypes, the query path
  with \<open>training=False\<close> on the model as the support path left it, and the distances.
\<close>

definition embed_support ::
  "prototypical \<Rightarrow> real tensor \<Rightarrow> nat \<Rightarrow> nat \<Rightarrow> error + (real tensor \<times> prototypical)" where
  "embed_support self support n_class n_support =
     bnd (tf_reshape support
            [int (n_class * n_support), int (self_w self), int (self_h self), int (self_c self)]) (\<lambda>x.
     bnd (encoder [0..<length (conv_layers self)] True self x) (\<lambda>(x, self).
     bnd (flatten_call x) (\<lambda>z_support.
     bnd (dim z_support (length (shape z_support) - 1)) (\<lambda>z_dim.
     bnd (tf_reshape z_support [int n_class, int n_support, int z_dim]) (\<lambda>z_prototypes.
     bnd (tf_reduce_mean z_prototypes 1) (\<lambda>z_prototypes.
     Inr (z_prototypes, self)))))))"

definition embed_query ::
  "prototypical \<Rightarrow> real tensor \<Rightarrow> nat \<Rightarrow> nat \<Rightarrow> error + (real tensor \<times> prototypical)" where
  "embed_query self query n_class n_query =
     bnd (tf_reshape query
            [int (n_class * n_query), int (self_w self), int (self_h self), int (self_c self)]) (\<lambda>x.
     bnd (encoder [0..<length (conv_layers self)] False self x) (\<lambda>(x, self).
     bnd (flatten_call x) (\<lambda>z_query.
     Inr (z_query, self))))"

text \<open>Lines 97 to 104: the loss and the accuracy from the distances and the labels.\<close>

definition loss_acc ::
  "int tensor \<Rightarrow> real tensor \<Rightarrow> nat \<Rightarrow> nat \<Rightarrow> real tensor \<Rightarrow> error + (real \<times> real)" where
  "loss_acc y y_onehot n_class n_query dists =
     bnd (tf_log_softmax (tf_negative dists) (- 1)) (\<lambda>log_p_y.
     bnd (tf_reshape log_p_y [int n_class, int n_query, - 1]) (\<lambda>log_p_y.
     bnd (tf_multiply y_onehot log_p_y) (\<lambda>weighted.
     bnd (tf_reduce_sum weighted (- 1)) (\<lambda>per_query.
     bnd (tf_reshape per_query [- 1]) (\<lambda>per_query.
     bnd (tf_reduce_mean_all per_query) (\<lambda>mean_log_p.
     let loss = - mean_log_p in
     bnd (tf_argmax log_p_y (- 1)) (\<lambda>predicted.
     bnd (tf_equal (tf_cast_int32 predicted) (tf_cast_int32 y)) (\<lambda>eq.
     let eq = tf_cast_bool_float32 eq in
     bnd (tf_reduce_mean_all eq) (\<lambda>acc.
     Inr (loss, acc))))))))))"

text \<open>
  \<open>Prototypical.call\<close>. The result is the pair (loss, acc) and the model as the call
  leaves it. The argument \<open>training\<close> is not read.
\<close>

definition call ::
  "prototypical \<Rightarrow> real tensor \<Rightarrow> real tensor \<Rightarrow> bool
     \<Rightarrow> error + ((real \<times> real) \<times> prototypical)" where
  "call self support query training =
     bnd (dim support 0) (\<lambda>n_class.
     bnd (dim support 1) (\<lambda>n_support.
     bnd (dim query 1) (\<lambda>n_query.
     bnd (labels n_class n_query) (\<lambda>(y, y_onehot).
     bnd (embed_support self support n_class n_support) (\<lambda>(z_prototypes, self).
     bnd (embed_query self query n_class n_query) (\<lambda>(z_query, self).
     bnd (calc_euclidian_dists z_query z_prototypes) (\<lambda>dists.
     bnd (loss_acc y y_onehot n_class n_query dists) (\<lambda>(loss, acc).
     Inr ((loss, acc), self)))))))))"

text \<open>The distances \<open>call\<close> computes on its way (lines 64 to 94), and the model then.\<close>

definition call_dists ::
  "prototypical \<Rightarrow> real tensor \<Rightarrow> real tensor \<Rightarrow> error + (real tensor \<times> prototypical)" where
  "call_dists self support query =
     bnd (dim support 0) (\<lambda>n_class.
     bnd (dim support 1) (\<lambda>n_support.
     bnd (dim query 1) (\<lambda>n_query.
     bnd (embed_support self support n_class n_support) (\<lambda>(z_prototypes, self).
     bnd (embed_query self query n_class n_query) (\<lambda>(z_query, self).
     bnd (calc_euclidian_dists z_query z_prototypes) (\<lambda>dists.
     Inr (dists, self)))))))"



section \<open>save and load\<close>

text \<open>
  The weight files on disk, by path. \<open>save\<close> calls itself; its first argument is the
  number of frames the interpreter's recursion limit still allows, and the call that
  finds none left raises RecursionError. \<open>load\<close> is \<open>load_weights\<close>: a missing file
  is an OSError, weights of other shapes a ValueError.
\<close>

type_synonym weights = "conv2d list \<times> batch_norm list"

type_synonym files = "string \<Rightarrow> weights option"

fun save :: "nat \<Rightarrow> prototypical \<Rightarrow> string \<Rightarrow> files \<Rightarrow> (error + unit) \<times> files" where
  "save 0 self model_path fs = (Inl RecursionError, fs)"
| "save (Suc frames) self model_path fs = save frames self model_path fs"

definition weight_shapes :: "weights \<Rightarrow> nat list list" where
  "weight_shapes ws =
     concat (map (\<lambda>l. [shape (kernel l), shape (bias l)]) (fst ws))
     @ concat (map (\<lambda>l. [shape (gamma l), shape (beta l), shape (moving_mean l),
                           shape (moving_variance l)]) (snd ws))"

definition load :: "prototypical \<Rightarrow> string \<Rightarrow> files \<Rightarrow> error + prototypical" where
  "load self model_path fs =
     (case fs model_path of
        None \<Rightarrow> Inl OSError
      | Some ws \<Rightarrow>
          if weight_shapes ws = weight_shapes (conv_layers self, batch_norm_layers self)
          then Inr (self\<lparr>conv_layers := fst ws, batch_norm_layers := snd ws\<rparr>)
          else Inl ValueError)"

section \<open>What the specification says\<close>

text \<open>
  The distance of the specification: the mean, over the feature axis, of the squared
  difference of query embedding \<open>i\<close> and prototype \<open>j\<close>.
\<close>

definition spec_distance :: "real tensor \<Rightarrow> real tensor \<Rightarrow> nat \<Rightarrow> nat \<Rightarrow> real" where
  "spec_distance z_query z_prototypes i j =
     (\<Sum>k<shape z_query ! 1. (elem z_query [i, k] - elem z_prototypes [j, k]) ^ 2)
       / real (shape z_query ! 1)"

text \<open>Row \<open>i\<close> of a 2-D tensor.\<close>

definition row :: "'a tensor \<Rightarrow> nat \<Rightarrow> 'a list" where
  "row t i = map (\<lambda>k. elem t [i, k]) [0..<shape t ! 1]"

text \<open>
  The log-probability of class \<open>j\<close> for query \<open>q\<close>: the log-softmax, over the
  prototype axis, of the negated distances. Query \<open>q\<close> of the flattened batch lies in
  class block \<open>q div n_query\<close>, its true class.
\<close>

definition spec_log_p :: "real tensor \<Rightarrow> nat \<Rightarrow> nat \<Rightarrow> real" where
  "spec_log_p dists q j =
     - elem dists [q, j] - ln (\<Sum>k<shape dists ! 1. exp (- elem dists [q, k]))"

definition spec_true_class :: "nat \<Rightarrow> nat \<Rightarrow> nat" where
  "spec_true_class n_query q = q div n_query"

text \<open>The loss: the negative mean over all queries of the log-probability of the true class.\<close>

definition spec_loss :: "nat \<Rightarrow> nat \<Rightarrow> real tensor \<Rightarrow> real" where
  "spec_loss n_class n_query dists =
     - (\<Sum>q<n_class * n_query. spec_log_p dists q (spec_true_class n_query q))
         / real (n_class * n_query)"

text \<open>
  Class \<open>j\<close> is the prediction for query \<open>q\<close>: its log-probability is the highest, and
  it is the first class with that log-probability.
\<close>

definition spec_predicted :: "real tensor \<Rightarrow> nat \<Rightarrow> nat \<Rightarrow> bool" where
  "spec_predicted dists q j =
     (j < shape dists ! 1
      \<and> (\<forall>j'<shape dists ! 1. spec_log_p dists q j' \<le> spec_log_p dists q j)
      \<and> (\<forall>j'<j. spec_log_p dists q j' < spec_log_p dists q j))"

text \<open>The accuracy: the fraction of the queries whose prediction is their true class.\<close>

definition spec_correct :: "nat \<Rightarrow> nat \<Rightarrow> real tensor \<Rightarrow> nat set" where
  "spec_correct n_class n_query dists =
     {q. q < n_class * n_query \<and> spec_predicted dists q (spec_true_class n_query q)}"

definition spec_accuracy :: "nat \<Rightarrow> nat \<Rightarrow> real tensor \<Rightarrow> real" where
  "spec_accuracy n_class n_query dists =
     real (card (spec_correct n_class n_query dists)) / real (n_class * n_query)"

text \<open>
  The two modes of the encoder. A block is the convolution and the pooling of layer \<open>i\<close>
  followed by batch normalisation, which in training mode normalises with the mean and
  variance of the batch it is given, and in inference mode with the running mean and
  variance of the layer. \<open>spec_encoding mode is self x\<close> is \<open>x\<close> after the blocks
  \<open>is\<close> in that mode. The support and the query tensor enter the encoder as batches
  of \<open>n_class * n_support\<close> and \<open>n_class * n_query\<close> images, \<open>n_class\<close> being the
  support's.
\<close>

definition pooled :: "prototypical \<Rightarrow> nat \<Rightarrow> real tensor \<Rightarrow> real tensor" where
  "pooled self i x = max_pool2d_out (conv2d_out (conv_layers self ! i) x)"

definition training_mode :: "batch_norm \<Rightarrow> real tensor \<Rightarrow> real tensor" where
  "training_mode layer p = normalise layer p (channel_mean p) (channel_variance p)"

definition inference_mode :: "batch_norm \<Rightarrow> real tensor \<Rightarrow> real tensor" where
  "inference_mode layer p =
     normalise layer p (\<lambda>ch. elem (moving_mean layer) [ch]) (\<lambda>ch. elem (moving_variance layer) [ch])"

fun spec_encoding ::
  "(batch_norm \<Rightarrow> real tensor \<Rightarrow> real tensor) \<Rightarrow> nat list \<Rightarrow> prototypical \<Rightarrow> real tensor \<Rightarrow> real tensor" where
  "spec_encoding mode [] self x = x"
| "spec_encoding mode (i # is) self x =
     spec_encoding mode is self (mode (batch_norm_layers self ! i) (pooled self i x))"

definition support_images :: "prototypical \<Rightarrow> real tensor \<Rightarrow> real tensor" where
  "support_images self support =
     \<lparr>shape = [shape support ! 0 * shape support ! 1, self_w self, self_h self, self_c self],
      buf = buf support\<rparr>"

definition query_images :: "prototypical \<Rightarrow> real tensor \<Rightarrow> real tensor \<Rightarrow> real tensor" where
  "query_images self support query =
     \<lparr>shape = [shape support ! 0 * shape query ! 1, self_w self, self_h self, self_c self],
      buf = buf query\<rparr>"

section \<open>Well-formed models and episodes\<close>

text \<open>
  The weights as Keras builds them for this constructor: four layers of each kind, the
  first kernel over the image's channels and the others over 64, every batch
  normalisation vector of length 64, and running variances that are not negative (they
  start at 1 and only move towards variances of batches).
\<close>

definition wf_batch_norm :: "batch_norm \<Rightarrow> bool" where
  "wf_batch_norm layer =
     (shape (gamma layer) = [64] \<and> shape (beta layer) = [64]
      \<and> shape (moving_mean layer) = [64] \<and> shape (moving_variance layer) = [64]
      \<and> (\<forall>ch<64. 0 \<le> elem (moving_variance layer) [ch]))"

definition wf_model :: "prototypical \<Rightarrow> bool" where
  "wf_model self =
     (length (conv_layers self) = 4 \<and> length (max_pool_layers self) = 4
      \<and> length (batch_norm_layers self) = 4
      \<and> (\<forall>i<4. shape (kernel (conv_layers self ! i))
                  = [3, 3, if i = 0 then self_c self else 64, 64])
      \<and> (\<forall>i<4. wf_batch_norm (batch_norm_layers self ! i)))"

text \<open>
  A support set of \<open>n_class\<close> classes with \<open>n_support\<close> images each, and a query set
  with \<open>n_query\<close> images for each of \<open>n_class\<close> classes, of the model's image size.
  Four poolings need at least 16 rows and 16 columns.
\<close>

definition support_set :: "prototypical \<Rightarrow> real tensor \<Rightarrow> nat \<Rightarrow> nat \<Rightarrow> bool" where
  "support_set self support n_class n_support =
     (shape support = [n_class, n_support, self_w self, self_h self, self_c self]
      \<and> wf_tensor support \<and> 0 < n_class \<and> 0 < n_support
      \<and> 16 \<le> self_w self \<and> 16 \<le> self_h self)"

definition query_set :: "prototypical \<Rightarrow> real tensor \<Rightarrow> nat \<Rightarrow> nat \<Rightarrow> bool" where
  "query_set self query n_class n_query =
     (shape query = [n_class, n_query, self_w self, self_h self, self_c self]
      \<and> wf_tensor query \<and> 0 < n_query)"

definition episode ::
  "prototypical \<Rightarrow> real tensor \<Rightarrow> real tensor \<Rightarrow> nat \<Rightarrow> nat \<Rightarrow> nat \<Rightarrow> bool" where
  "episode self support query n_class n_support n_query =
     (support_set self support n_class n_support \<and> query_set self query n_class n_query)"

section \<open>Example inputs\<close>

text \<open>
  A model for images of 16 by 16 pixels and one channel, with all kernels and biases
  zero and the batch normalisation layers as Keras initialises them; episodes of blank
  images; two small embedding matrices.
\<close>

definition full :: "nat list \<Rightarrow> real \<Rightarrow> real tensor" where
  "full sh v = \<lparr>shape = sh, buf = replicate (prod_list sh) v\<rparr>"

definition fresh_batch_norm :: batch_norm where
  "fresh_batch_norm =
     \<lparr>gamma = full [64] 1, beta = full [64] 0,
      moving_mean = full [64] 0, moving_variance = full [64] 1\<rparr>"

definition example_model :: prototypical where
  "example_model =
     \<lparr>self_w = 16, self_h = 16, self_c = 1,
      conv_layers =
        [\<lparr>kernel = full [3, 3, 1, 64] 0, bias = full [64] 0\<rparr>,
         \<lparr>kernel = full [3, 3, 64, 64] 0, bias = full [64] 0\<rparr>,
         \<lparr>kernel = full [3, 3, 64, 64] 0, bias = full [64] 0\<rparr>,
         \<lparr>kernel = full [3, 3, 64, 64] 0, bias = full [64] 0\<rparr>],
      max_pool_layers = [MaxPool2D, MaxPool2D, MaxPool2D, MaxPool2D],
      batch_norm_layers =
        [fresh_batch_norm, fresh_batch_norm, fresh_batch_norm, fresh_batch_norm]\<rparr>"

definition example_support :: "real tensor" where
  "example_support = full [2, 1, 16, 16, 1] 0"

definition example_query :: "real tensor" where
  "example_query = full [2, 3, 16, 16, 1] 0"

definition example_query_one_class :: "real tensor" where
  "example_query_one_class = full [1, 3, 16, 16, 1] 0"

text \<open>A query tensor of one class block whose images have twice the rows.\<close>

definition example_query_wide :: "real tensor" where
  "example_query_wide = full [1, 3, 32, 16, 1] 0"


definition example_z_query :: "real tensor" where
  "example_z_query = \<lparr>shape = [2, 2], buf = [0, 0, 1, 3]\<rparr>"

definition example_z_prototypes :: "real tensor" where
  "example_z_prototypes = \<lparr>shape = [2, 2], buf = [0, 0, 1, 1]\<rparr>"

text \<open>
  The same two matrices in float32, and two matrices of one row and one column:
  \<open>2^-100\<close>, whose square is below the range of float32, and zero.
\<close>

definition example_float32_query :: "float32 tensor" where
  "example_float32_query = \<lparr>shape = [2, 2], buf = [Finite 0, Finite 0, Finite 1, Finite 3]\<rparr>"

definition example_float32_prototypes :: "float32 tensor" where
  "example_float32_prototypes = \<lparr>shape = [2, 2], buf = [Finite 0, Finite 0, Finite 1, Finite 1]\<rparr>"

definition example_tiny :: "float32 tensor" where
  "example_tiny = \<lparr>shape = [1, 1], buf = [Finite (1 / 2 ^ 100)]\<rparr>"

definition example_zero :: "float32 tensor" where
  "example_zero = \<lparr>shape = [1, 1], buf = [Finite 0]\<rparr>"

section \<open>Index arithmetic\<close>

lemma bnd_Inr [simp]: "bnd (Inr v) f = f v"
  by (simp add: bnd_def)

lemma bnd_Inl [simp]: "bnd (Inl e) f = Inl e"
  by (simp add: bnd_def)

lemma in_bounds_Nil [simp]: "in_bounds [] idx = (idx = [])"
  by (cases idx) (simp_all add: in_bounds_def)

lemma in_bounds_Cons [simp]:
  "in_bounds (d # ds) idx = (\<exists>i is. idx = i # is \<and> i < d \<and> in_bounds ds is)"
  by (cases idx) (simp_all add: in_bounds_def)

lemma in_bounds_length: "in_bounds sh idx \<Longrightarrow> length idx = length sh"
  by (simp add: in_bounds_def list_all2_lengthD)

lemma ravel_less: "in_bounds sh idx \<Longrightarrow> ravel sh idx < prod_list sh"
proof (induction sh arbitrary: idx)
  case Nil
  then show ?case by simp
next
  case (Cons d ds)
  then obtain i js where idx: "idx = i # js" and i: "i < d" and js: "in_bounds ds js"
    by auto
  have "ravel ds js < prod_list ds" using Cons.IH js by simp
  then have "i * prod_list ds + ravel ds js < Suc i * prod_list ds" by simp
  also have "\<dots> \<le> d * prod_list ds" using i by (intro mult_le_mono1) simp
  finally show ?case by (simp add: idx)
qed

lemma unravel_ravel: "in_bounds sh idx \<Longrightarrow> unravel sh (ravel sh idx) = idx"
proof (induction sh arbitrary: idx)
  case Nil
  then show ?case by simp
next
  case (Cons d ds)
  then obtain i js where idx: "idx = i # js" and i: "i < d" and js: "in_bounds ds js"
    by auto
  have lt: "ravel ds js < prod_list ds" using js by (rule ravel_less)
  show ?case using Cons.IH [OF js] lt by (simp add: idx)
qed

lemma in_bounds_unravel: "k < prod_list sh \<Longrightarrow> in_bounds sh (unravel sh k)"
proof (induction sh arbitrary: k)
  case Nil
  then show ?case by simp
next
  case (Cons d ds)
  have pos: "0 < prod_list ds" using Cons.prems by (cases "prod_list ds") simp_all
  have "k div prod_list ds < d"
    using Cons.prems pos by (simp add: less_mult_imp_div_less mult.commute)
  moreover have "in_bounds ds (unravel ds (k mod prod_list ds))"
    using pos by (intro Cons.IH) simp
  ultimately show ?case by simp
qed

lemma ravel_unravel: "k < prod_list sh \<Longrightarrow> ravel sh (unravel sh k) = k"
proof (induction sh arbitrary: k)
  case Nil
  then show ?case by simp
next
  case (Cons d ds)
  have pos: "0 < prod_list ds" using Cons.prems by (cases "prod_list ds") simp_all
  have "ravel ds (unravel ds (k mod prod_list ds)) = k mod prod_list ds"
    using pos by (intro Cons.IH) simp
  then show ?case by simp
qed

lemma shape_tabulate [simp]: "shape (tabulate sh f) = sh"
  by (simp add: tabulate_def)

lemma wf_tabulate [simp]: "wf_tensor (tabulate sh f)"
  by (simp add: tabulate_def wf_tensor_def)

lemma length_buf_tabulate [simp]: "length (buf (tabulate sh f)) = prod_list sh"
  by (simp add: tabulate_def)

lemma buf_tabulate_nth: "k < prod_list sh \<Longrightarrow> buf (tabulate sh f) ! k = f (unravel sh k)"
  by (simp add: tabulate_def)

lemma elem_tabulate: "in_bounds sh idx \<Longrightarrow> elem (tabulate sh f) idx = f idx"
  by (simp add: elem_def buf_tabulate_nth ravel_less unravel_ravel)

subsection \<open>The operations\<close>

lemma broadcast_rev_same: "broadcast_rev a a = Some a"
  by (induction a) simp_all

lemma broadcast_shape_same [simp]: "broadcast_shape a a = Some a"
  by (simp add: broadcast_shape_def broadcast_rev_same)

lemma bidx_same: "in_bounds sh idx \<Longrightarrow> bidx sh idx = idx"
proof (induction sh arbitrary: idx)
  case Nil
  then show ?case by (simp add: bidx_def)
next
  case (Cons d ds)
  then obtain i js where idx: "idx = i # js" and i: "i < d" and js: "in_bounds ds js"
    by auto
  have "length js = length ds" using js by (rule in_bounds_length)
  then show ?case using Cons.IH [OF js] i by (auto simp: idx bidx_def)
qed

lemma broadcast_op_same:
  "shape x = shape y \<Longrightarrow>
   broadcast_op f x y = Inr (tabulate (shape y) (\<lambda>idx. f (elem x (bidx (shape y) idx)) (elem y (bidx (shape y) idx))))"
  by (simp add: broadcast_op_def)

lemma elem_tf_pow:
  "ravel (shape t) idx < length (buf t) \<Longrightarrow> elem (tf_pow t n) idx = elem t idx ^ n"
  by (simp add: elem_def tf_pow_def)

lemma shape_tf_pow [simp]: "shape (tf_pow t n) = shape t"
  by (simp add: tf_pow_def)

subsection \<open>calc_euclidian_dists\<close>

lemma calc_euclidian_dists_elem:
  assumes x: "shape x = [n, d]" and y: "shape y = [m, d]" and d: "0 < d"
  shows "\<exists>D. calc_euclidian_dists x y = Inr D \<and> shape D = [n, m] \<and> wf_tensor D \<and>
           (\<forall>i<n. \<forall>j<m. elem D [i, j] =
              sum_list (map (\<lambda>k. (elem x [i, k] - elem y [j, k]) ^ 2) [0..<d]) / real d)"
proof -
  define X where "X = tabulate [n, m, d] (\<lambda>idx. elem \<lparr>shape = [n, 1, d], buf = buf x\<rparr>
       (map2 (\<lambda>i d. i mod d) idx [n, 1, d]))"
  define Y where "Y = tabulate [n, m, d] (\<lambda>idx. elem \<lparr>shape = [1, m, d], buf = buf y\<rparr>
       (map2 (\<lambda>i d. i mod d) idx [1, m, d]))"
  define S where "S = tabulate [n, m, d] (\<lambda>idx. elem X (bidx [n, m, d] idx) - elem Y (bidx [n, m, d] idx))"
  define D where "D = tabulate [n, m]
      (\<lambda>idx. sum_list (map (\<lambda>k. elem (tf_pow S 2) (along 2 idx k)) [0..<d]) / real d)"
  have sX: "shape X = [n, m, d]" and sY: "shape Y = [n, m, d]" and sS: "shape S = [n, m, d]"
    by (simp_all add: X_def Y_def S_def)
  have 1: "tf_expand_dims x 1 = Inr \<lparr>shape = [n, 1, d], buf = buf x\<rparr>"
    by (simp add: tf_expand_dims_def x)
  have 2: "tf_tile \<lparr>shape = [n, 1, d], buf = buf x\<rparr> [1, m, 1] = Inr X"
    by (simp add: tf_tile_def X_def)
  have 3: "tf_expand_dims y 0 = Inr \<lparr>shape = [1, m, d], buf = buf y\<rparr>"
    by (simp add: tf_expand_dims_def y)
  have 4: "tf_tile \<lparr>shape = [1, m, d], buf = buf y\<rparr> [n, 1, 1] = Inr Y"
    by (simp add: tf_tile_def Y_def)
  have 5: "tf_subtract X Y = Inr S"
    by (simp add: tf_subtract_def broadcast_op_same sX sY S_def)
  have 6: "tf_reduce_mean (tf_pow S 2) 2 = Inr D"
    using d by (simp add: tf_reduce_mean_def normalize_axis_def sS D_def reduced_shape_def)
  have dx: "dim x 0 = Inr n" and dy: "dim y 0 = Inr m"
    by (simp_all add: dim_def x y)
  have call: "calc_euclidian_dists x y = Inr D"
    by (simp only: calc_euclidian_dists_def dx dy 1 2 3 4 5 6 bnd_Inr)
  have el: "elem D [i, j] = sum_list (map (\<lambda>k. (elem x [i, k] - elem y [j, k]) ^ 2) [0..<d]) / real d"
    if i: "i < n" and j: "j < m" for i j
  proof -
    have S_at: "elem (tf_pow S 2) [i, j, k] = (elem x [i, k] - elem y [j, k]) ^ 2" if k: "k < d" for k
    proof -
      have ib: "in_bounds [n, m, d] [i, j, k]" using i j k by simp
      have "ravel (shape S) [i, j, k] < length (buf S)"
        using ravel_less [OF ib] by (simp add: S_def)
      then have "elem (tf_pow S 2) [i, j, k] = elem S [i, j, k] ^ 2"
        by (rule elem_tf_pow)
      also have "elem S [i, j, k] = elem X [i, j, k] - elem Y [i, j, k]"
        unfolding S_def using ib by (simp add: elem_tabulate bidx_same del: in_bounds_Cons)
      also have "elem X [i, j, k] = elem x [i, k]"
        unfolding X_def using ib i k by (simp add: elem_tabulate del: in_bounds_Cons) (simp add: elem_def x)
      also have "elem Y [i, j, k] = elem y [j, k]"
        unfolding Y_def using ib j k by (simp add: elem_tabulate del: in_bounds_Cons) (simp add: elem_def y)
      finally show ?thesis .
    qed
    have "elem D [i, j] = sum_list (map (\<lambda>k. elem (tf_pow S 2) (along 2 [i, j] k)) [0..<d]) / real d"
      unfolding D_def using i j by (simp add: elem_tabulate)
    also have "map (\<lambda>k. elem (tf_pow S 2) (along 2 [i, j] k)) [0..<d]
             = map (\<lambda>k. (elem x [i, k] - elem y [j, k]) ^ 2) [0..<d]"
      by (rule map_cong) (simp_all add: along_def S_at)
    finally show ?thesis .
  qed
  show ?thesis
    using call el by (intro exI [of _ D]) (simp add: D_def)
qed

lemma sum_list_upt_sum: "sum_list (map f [0..<n]) = (\<Sum>k<n. f k)"
  by (simp add: interv_sum_list_conv_sum_set_nat atLeast0LessThan)

lemma sum_squares_zero_iff:
  "(sum_list (map (\<lambda>k. (f k - g k) ^ 2) [0..<d]) = (0::real)) = (map f [0..<d] = map g [0..<d])"
proof -
  have "(sum_list (map (\<lambda>k. (f k - g k) ^ 2) [0..<d]) = 0)
      = (\<forall>v\<in>set (map (\<lambda>k. (f k - g k) ^ 2) [0..<d]). v = 0)"
    by (rule sum_list_nonneg_eq_0_iff) auto
  also have "\<dots> = (\<forall>k<d. f k = g k)" by auto
  also have "\<dots> = (map f [0..<d] = map g [0..<d])" by auto
  finally show ?thesis .
qed

text \<open>
  C2: for query embeddings with \<open>n_class * n_query\<close> rows and prototypes with
  \<open>n_class\<close> rows, both of feature dimension \<open>d \<ge> 1\<close>, the distance matrix has
  shape [n_class * n_query, n_class] and its entry (i, j) is the mean (the sum divided
  by \<open>d\<close>) over the feature axis of the squared difference of query row i and
  prototype row j.
\<close>

theorem calc_euclidian_dists_mean_squared:
  assumes "shape z_query = [n_class * n_query, d]"
    and "shape z_prototypes = [n_class, d]"
    and "1 \<le> d"
  shows "\<exists>dists. calc_euclidian_dists z_query z_prototypes = Inr dists
           \<and> shape dists = [n_class * n_query, n_class]
           \<and> (\<forall>i<n_class * n_query. \<forall>j<n_class.
                 elem dists [i, j] = spec_distance z_query z_prototypes i j)"
proof -
  have d: "0 < d" using assms(3) by simp
  from calc_euclidian_dists_elem [OF assms(1) assms(2) d]
  show ?thesis
    by (auto simp: spec_distance_def assms(1) sum_list_upt_sum)
qed

theorem calc_euclidian_dists_mean_squared_witness:
  "\<exists>dists. calc_euclidian_dists example_z_query example_z_prototypes = Inr dists
     \<and> shape dists = [2, 2] \<and> elem dists [1, 0] = 5 \<and> elem dists [1, 1] = 2"
proof -
  have s: "shape example_z_query = [2 * 1, 2]" "shape example_z_prototypes = [2, 2]" "(1::nat) \<le> 2"
    by (simp_all add: example_z_query_def example_z_prototypes_def)
  have v: "spec_distance example_z_query example_z_prototypes 1 0 = 5"
    "spec_distance example_z_query example_z_prototypes 1 1 = 2"
    by (simp_all add: spec_distance_def example_z_query_def example_z_prototypes_def elem_def
        numeral_2_eq_2)
  from calc_euclidian_dists_mean_squared [OF s] v show ?thesis
    by auto
qed

text \<open>
  In exact arithmetic the distance of two rows is not negative, and zero exactly when
  the rows are equal.
\<close>

lemma calc_euclidian_dists_exact_zero_iff:
  assumes x: "shape x = [n, d]" and y: "shape y = [m, d]" and d: "1 \<le> d"
  shows "(\<exists>D. calc_euclidian_dists x y = Inr D \<and> shape D = [n, m]
            \<and> (\<forall>i<n. \<forall>j<m. 0 \<le> elem D [i, j]
                  \<and> (elem D [i, j] = 0 \<longleftrightarrow> row x i = row y j)))
       \<and> (\<exists>D. calc_euclidian_dists x x = Inr D \<and> shape D = [n, n]
            \<and> (\<forall>i<n. elem D [i, i] = 0))"
proof -
  have d0: "0 < d" using d by simp
  obtain D where D: "calc_euclidian_dists x y = Inr D" "shape D = [n, m]"
    and el: "\<And>i j. i < n \<Longrightarrow> j < m \<Longrightarrow> elem D [i, j] =
              sum_list (map (\<lambda>k. (elem x [i, k] - elem y [j, k]) ^ 2) [0..<d]) / real d"
    using calc_euclidian_dists_elem [OF x y d0] by blast
  obtain E where E: "calc_euclidian_dists x x = Inr E" "shape E = [n, n]"
    and el': "\<And>i j. i < n \<Longrightarrow> j < n \<Longrightarrow> elem E [i, j] =
              sum_list (map (\<lambda>k. (elem x [i, k] - elem x [j, k]) ^ 2) [0..<d]) / real d"
    using calc_euclidian_dists_elem [OF x x d0] by blast
  have nonneg: "0 \<le> elem D [i, j]" if "i < n" "j < m" for i j
  proof -
    have "0 \<le> sum_list (map (\<lambda>k. (elem x [i, k] - elem y [j, k]) ^ 2) [0..<d])"
      by (rule sum_list_nonneg) auto
    then show ?thesis using that by (simp add: el)
  qed
  have zero: "(elem D [i, j] = 0) = (row x i = row y j)" if "i < n" "j < m" for i j
    using that d0 by (simp add: el sum_squares_zero_iff row_def x y)
  have diag: "elem E [i, i] = 0" if "i < n" for i
    using that by (simp add: el')
  show ?thesis
    using D E nonneg zero diag by blast
qed

subsection \<open>calc_euclidian_dists on float32 values\<close>

lemma calc_euclidian_dists_float32_elem:
  assumes x: "shape x = [n, d]" and y: "shape y = [m, d]"
  shows "\<exists>D. calc_euclidian_dists_float32 x y = Inr D \<and> shape D = [n, m] \<and> wf_tensor D \<and>
           (\<forall>i<n. \<forall>j<m. elem D [i, j] =
              float32_mean (map (\<lambda>k. float32_pow (float32_sub (elem x [i, k]) (elem y [j, k])) 2)
                              [0..<d]))"
proof -
  define X where "X = tabulate [n, m, d] (\<lambda>idx. elem \<lparr>shape = [n, 1, d], buf = buf x\<rparr>
       (map2 (\<lambda>i d. i mod d) idx [n, 1, d]))"
  define Y where "Y = tabulate [n, m, d] (\<lambda>idx. elem \<lparr>shape = [1, m, d], buf = buf y\<rparr>
       (map2 (\<lambda>i d. i mod d) idx [1, m, d]))"
  define S where "S = tabulate [n, m, d]
      (\<lambda>idx. float32_sub (elem X (bidx [n, m, d] idx)) (elem Y (bidx [n, m, d] idx)))"
  define D where "D = tabulate [n, m]
      (\<lambda>idx. float32_mean (map (\<lambda>k. elem (float32_tensor_pow S 2) (along 2 idx k)) [0..<d]))"
  have sX: "shape X = [n, m, d]" and sY: "shape Y = [n, m, d]" and sS: "shape S = [n, m, d]"
    by (simp_all add: X_def Y_def S_def)
  have 1: "tf_expand_dims x 1 = Inr \<lparr>shape = [n, 1, d], buf = buf x\<rparr>"
    by (simp add: tf_expand_dims_def x)
  have 2: "tf_tile \<lparr>shape = [n, 1, d], buf = buf x\<rparr> [1, m, 1] = Inr X"
    by (simp add: tf_tile_def X_def)
  have 3: "tf_expand_dims y 0 = Inr \<lparr>shape = [1, m, d], buf = buf y\<rparr>"
    by (simp add: tf_expand_dims_def y)
  have 4: "tf_tile \<lparr>shape = [1, m, d], buf = buf y\<rparr> [n, 1, 1] = Inr Y"
    by (simp add: tf_tile_def Y_def)
  have 5: "float32_subtract X Y = Inr S"
    by (simp add: float32_subtract_def broadcast_op_same sX sY S_def)
  have 6: "float32_reduce_mean (float32_tensor_pow S 2) 2 = Inr D"
    by (simp add: float32_reduce_mean_def float32_tensor_pow_def normalize_axis_def sS D_def
        reduced_shape_def)
  have dx: "dim x 0 = Inr n" and dy: "dim y 0 = Inr m"
    by (simp_all add: dim_def x y)
  have call: "calc_euclidian_dists_float32 x y = Inr D"
    by (simp only: calc_euclidian_dists_float32_def dx dy 1 2 3 4 5 6 bnd_Inr)
  have el: "elem D [i, j] = float32_mean
      (map (\<lambda>k. float32_pow (float32_sub (elem x [i, k]) (elem y [j, k])) 2) [0..<d])"
    if i: "i < n" and j: "j < m" for i j
  proof -
    have S_at: "elem (float32_tensor_pow S 2) [i, j, k]
                  = float32_pow (float32_sub (elem x [i, k]) (elem y [j, k])) 2" if k: "k < d" for k
    proof -
      have ib: "in_bounds [n, m, d] [i, j, k]" using i j k by simp
      have "ravel (shape S) [i, j, k] < length (buf S)"
        using ravel_less [OF ib] by (simp add: S_def)
      then have "elem (float32_tensor_pow S 2) [i, j, k] = float32_pow (elem S [i, j, k]) 2"
        by (simp add: elem_def float32_tensor_pow_def)
      also have "elem S [i, j, k] = float32_sub (elem X [i, j, k]) (elem Y [i, j, k])"
        unfolding S_def using ib by (simp add: elem_tabulate bidx_same del: in_bounds_Cons)
      also have "elem X [i, j, k] = elem x [i, k]"
        unfolding X_def using ib i k by (simp add: elem_tabulate del: in_bounds_Cons) (simp add: elem_def x)
      also have "elem Y [i, j, k] = elem y [j, k]"
        unfolding Y_def using ib j k by (simp add: elem_tabulate del: in_bounds_Cons) (simp add: elem_def y)
      finally show ?thesis .
    qed
    have "elem D [i, j]
        = float32_mean (map (\<lambda>k. elem (float32_tensor_pow S 2) (along 2 [i, j] k)) [0..<d])"
      unfolding D_def using i j by (simp add: elem_tabulate)
    also have "map (\<lambda>k. elem (float32_tensor_pow S 2) (along 2 [i, j] k)) [0..<d]
             = map (\<lambda>k. float32_pow (float32_sub (elem x [i, k]) (elem y [j, k])) 2) [0..<d]"
      by (rule map_cong) (simp_all add: along_def S_at)
    finally show ?thesis .
  qed
  show ?thesis
    using call el by (intro exI [of _ D]) (simp add: D_def)
qed

lemma round_float32_0 [simp]: "round_float32 0 = Finite 0"
  by (simp add: round_float32_def)

lemma not_negative_round: "0 \<le> r \<Longrightarrow> not_negative (round_float32 r)"
  by (simp add: round_float32_def not_negative_def)

lemma not_negative_add:
  "not_negative a \<Longrightarrow> not_negative b \<Longrightarrow> not_negative (float32_add a b)"
  by (cases a; cases b) (simp_all add: not_negative_def not_negative_round [unfolded not_negative_def])

lemma not_negative_foldl:
  "not_negative a \<Longrightarrow> \<forall>v\<in>set vs. not_negative v \<Longrightarrow> not_negative (foldl float32_add a vs)"
  by (induction vs arbitrary: a) (simp_all add: not_negative_add)

lemma not_negative_mean:
  assumes "\<forall>v\<in>set vs. not_negative v" and "vs \<noteq> []"
  shows "not_negative (float32_mean vs)"
proof -
  have "not_negative (foldl float32_add (Finite 0) vs)"
    using assms(1) by (intro not_negative_foldl) (simp_all add: not_negative_def)
  then show ?thesis
    using assms(2) unfolding float32_mean_def
    by (cases "foldl float32_add (Finite 0) vs")
       (simp_all add: not_negative_def not_negative_round [unfolded not_negative_def])
qed

lemma not_negative_square:
  assumes "is_finite a" and "is_finite b"
  shows "not_negative (float32_pow (float32_sub a b) 2)"
proof -
  from assms obtain r s where a: "a = Finite r" and b: "b = Finite s"
    by (cases a; cases b) (simp_all add: is_finite_def)
  have "round_float32 (r - s) \<noteq> NaN"
    by (simp add: round_float32_def)
  then show ?thesis
    by (cases "round_float32 (r - s)")
       (simp_all add: a b float32_sub_def numeral_2_eq_2 not_negative_round
          not_negative_def [of PosInf])
qed

lemma foldl_zero:
  "\<forall>v\<in>set vs. v = Finite 0 \<Longrightarrow> foldl float32_add (Finite 0) vs = Finite 0"
  by (induction vs) simp_all

lemma float32_mean_zero:
  assumes "\<forall>v\<in>set vs. v = Finite 0" and "vs \<noteq> []"
  shows "float32_mean vs = Finite 0"
  using assms(2) by (simp add: float32_mean_def foldl_zero [OF assms(1)])

lemma square_same:
  "is_finite a \<Longrightarrow> float32_pow (float32_sub a a) 2 = Finite 0"
  by (cases a) (simp_all add: is_finite_def float32_sub_def numeral_2_eq_2)


text \<open>
  C10, as amended: for 2-D float32 tensors \<open>x\<close> with \<open>n\<close> rows and \<open>y\<close> with \<open>m\<close>
  rows, of the same feature dimension \<open>d \<ge> 1\<close> and with finite entries, every entry
  of the distance matrix is not negative (a number at least zero, or \<open>+\<infinity>\<close> where a
  square or the sum overflows), entry (i, j) is zero whenever row i of \<open>x\<close> equals
  row j of \<open>y\<close>, and the distances of \<open>x\<close> to itself have a zero diagonal.
\<close>

theorem calc_euclidian_dists_float32_zero:
  assumes x: "shape x = [n, d]" and y: "shape y = [m, d]" and d: "1 \<le> d"
    and fx: "\<forall>i<n. \<forall>k<d. is_finite (elem x [i, k])"
    and fy: "\<forall>j<m. \<forall>k<d. is_finite (elem y [j, k])"
  shows "(\<exists>D. calc_euclidian_dists_float32 x y = Inr D \<and> shape D = [n, m]
            \<and> (\<forall>i<n. \<forall>j<m. not_negative (elem D [i, j])
                  \<and> (row x i = row y j \<longrightarrow> elem D [i, j] = Finite 0)))
       \<and> (\<exists>D. calc_euclidian_dists_float32 x x = Inr D \<and> shape D = [n, n]
            \<and> (\<forall>i<n. elem D [i, i] = Finite 0))"
proof -
  have ne: "[0..<d] \<noteq> []" using d by simp
  obtain D where D: "calc_euclidian_dists_float32 x y = Inr D" "shape D = [n, m]"
    and el: "\<And>i j. i < n \<Longrightarrow> j < m \<Longrightarrow> elem D [i, j] = float32_mean
              (map (\<lambda>k. float32_pow (float32_sub (elem x [i, k]) (elem y [j, k])) 2) [0..<d])"
    using calc_euclidian_dists_float32_elem [OF x y] by blast
  obtain E where E: "calc_euclidian_dists_float32 x x = Inr E" "shape E = [n, n]"
    and el': "\<And>i j. i < n \<Longrightarrow> j < n \<Longrightarrow> elem E [i, j] = float32_mean
              (map (\<lambda>k. float32_pow (float32_sub (elem x [i, k]) (elem x [j, k])) 2) [0..<d])"
    using calc_euclidian_dists_float32_elem [OF x x] by blast
  have nonneg: "not_negative (elem D [i, j])" if "i < n" "j < m" for i j
    unfolding el [OF that]
    using that fx fy ne by (intro not_negative_mean) (auto intro: not_negative_square)
  have zero: "elem D [i, j] = Finite 0" if "i < n" "j < m" "row x i = row y j" for i j
  proof -
    have "map (\<lambda>k. elem x [i, k]) [0..<d] = map (\<lambda>k. elem y [j, k]) [0..<d]"
      using that(3) by (simp add: row_def x y)
    then have "elem x [i, k] = elem y [j, k]" if "k < d" for k
      using that by (auto simp: list_eq_iff_nth_eq)
    then have "float32_pow (float32_sub (elem x [i, k]) (elem y [j, k])) 2 = Finite 0"
      if "k < d" for k
      using that fy \<open>j < m\<close> by (simp add: square_same)
    then show ?thesis
      unfolding el [OF that(1,2)] using ne by (intro float32_mean_zero) auto
  qed
  have diag: "elem E [i, i] = Finite 0" if "i < n" for i
    unfolding el' [OF that that]
    using that fx ne by (intro float32_mean_zero) (auto simp: square_same)
  show ?thesis
    using D E nonneg zero diag by blast
qed

theorem calc_euclidian_dists_float32_zero_witness:
  "(\<exists>D. calc_euclidian_dists_float32 example_float32_query example_float32_prototypes = Inr D
       \<and> shape D = [2, 2] \<and> elem D [0, 0] = Finite 0 \<and> not_negative (elem D [1, 0]))
   \<and> (\<exists>D. calc_euclidian_dists_float32 example_float32_query example_float32_query = Inr D
       \<and> elem D [0, 0] = Finite 0 \<and> elem D [1, 1] = Finite 0)"
proof -
  have s: "shape example_float32_query = [2, 2]" "shape example_float32_prototypes = [2, 2]"
    "(1::nat) \<le> 2"
    by (simp_all add: example_float32_query_def example_float32_prototypes_def)
  have f: "\<forall>i<2. \<forall>k<2. is_finite (elem example_float32_query [i, k])"
    "\<forall>j<2. \<forall>k<2. is_finite (elem example_float32_prototypes [j, k])"
    by (simp_all add: example_float32_query_def example_float32_prototypes_def elem_def
        is_finite_def less_Suc_eq numeral_2_eq_2)
  have r: "row example_float32_query 0 = row example_float32_prototypes 0"
    by (simp add: row_def example_float32_query_def example_float32_prototypes_def elem_def
        numeral_2_eq_2)
  from calc_euclidian_dists_float32_zero [OF s f] r show ?thesis
    by (auto simp: numeral_2_eq_2)
qed

text \<open>
  C10, as stated, fails from zero to equal rows: the difference of \<open>2^-100\<close> and 0 is
  \<open>2^-100\<close>, its square \<open>2^-200\<close> is below the range of float32 and underflows to
  zero, and the distance of two different rows is 0.
\<close>

theorem calc_euclidian_dists_float32_underflow:
  "calc_euclidian_dists_float32 example_tiny example_zero
     = Inr \<lparr>shape = [1, 1], buf = [Finite 0]\<rparr>
   \<and> row example_tiny 0 = [Finite (1 / 2 ^ 100)]
   \<and> row example_zero 0 = [Finite 0]"
proof -
  have sx: "shape example_tiny = [1, 1]" and sy: "shape example_zero = [1, 1]"
    by (simp_all add: example_tiny_def example_zero_def)
  obtain D where D: "calc_euclidian_dists_float32 example_tiny example_zero = Inr D"
    and sD: "shape D = [1, 1]" and wD: "wf_tensor D"
    and el: "elem D [0, 0] = float32_mean
              (map (\<lambda>k. float32_pow (float32_sub (elem example_tiny [0, k])
                                                   (elem example_zero [0, k])) 2) [0..<1])"
    using calc_euclidian_dists_float32_elem [OF sx sy] by auto
  have v: "elem D [0, 0] = Finite 0"
    unfolding el
    by (simp add: float32_mean_def float32_sub_def example_tiny_def example_zero_def elem_def
        round_float32_def numeral_2_eq_2 power_divide flip: power_add)
  obtain b where b: "buf D = [b]"
    using sD wD by (cases "buf D") (auto simp: wf_tensor_def)
  have "b = Finite 0" using v by (simp add: elem_def sD b)
  then have "D = \<lparr>shape = [1, 1], buf = [Finite 0]\<rparr>"
    using sD b by (cases D) simp
  then show ?thesis
    using D by (simp add: row_def example_tiny_def example_zero_def elem_def)
qed

subsection \<open>save and load\<close>

lemma save_raises: "save frames self model_path fs = (Inl RecursionError, fs)"
  by (induction frames) simp_all


text \<open>
  C5: whatever the path and however many frames the recursion limit allows,
  \<open>save\<close> only calls itself: it ends in RecursionError, never returns normally and
  leaves the files as they were.
\<close>

theorem save_never_returns:
  "fst (save frames self model_path fs) = Inl RecursionError
     \<and> fst (save frames self model_path fs) \<noteq> Inr ()
     \<and> snd (save frames self model_path fs) = fs"
  by (simp add: save_raises)

theorem save_never_returns_witness:
  "fst (save 1000 example_model ''model.h5'' (\<lambda>p. None)) = Inl RecursionError
     \<and> fst (save 1000 example_model ''model.h5'' (\<lambda>p. None)) \<noteq> Inr ()
     \<and> snd (save 1000 example_model ''model.h5'' (\<lambda>p. None)) = (\<lambda>p. None)"
  by (rule save_never_returns)

subsection \<open>The encoder\<close>

lemma bnd_eq_Inr: "bnd m f = Inr r \<longleftrightarrow> (\<exists>v. m = Inr v \<and> f v = Inr r)"
  by (cases m) simp_all

lemma shape_conv2d_out [simp]:
  "shape (conv2d_out layer x) = [shape x ! 0, shape x ! 1, shape x ! 2, 64]"
  by (simp add: conv2d_out_def)

lemma wf_conv2d_out [simp]: "wf_tensor (conv2d_out layer x)"
  by (simp add: conv2d_out_def)

lemma shape_max_pool2d_out [simp]:
  "shape (max_pool2d_out x) = [shape x ! 0, shape x ! 1 div 2, shape x ! 2 div 2, shape x ! 3]"
  by (simp add: max_pool2d_out_def)

lemma wf_max_pool2d_out [simp]: "wf_tensor (max_pool2d_out x)"
  by (simp add: max_pool2d_out_def)

lemma shape_normalise [simp]: "shape (normalise layer x m v) = shape x"
  by (simp add: normalise_def)

lemma wf_normalise [simp]: "wf_tensor (normalise layer x m v)"
  by (simp add: normalise_def)

lemma sum_nhw_nonneg: "(\<And>n i j. 0 \<le> f n i j) \<Longrightarrow> 0 \<le> sum_nhw x f"
  unfolding sum_nhw_def by (auto intro!: sum_list_nonneg)

lemma channel_variance_nonneg: "0 \<le> channel_variance x ch"
  unfolding channel_variance_def by (intro divide_nonneg_nonneg sum_nhw_nonneg) simp_all

lemma unbiased_variance_nonneg: "0 \<le> unbiased_variance x ch"
  unfolding unbiased_variance_def
  by (intro mult_nonneg_nonneg channel_variance_nonneg divide_nonneg_nonneg) simp_all

lemma elem_vec_tabulate: "ch < n \<Longrightarrow> elem (tabulate [n] f) [ch] = f [ch]"
  by (simp add: elem_tabulate)

lemma wf_batch_norm_update_moving:
  assumes "wf_batch_norm layer"
  shows "wf_batch_norm (update_moving layer x)"
proof -
  have "0 \<le> elem (moving_variance layer) [ch] * momentum + unbiased_variance x ch * (1 - momentum)"
    if "ch < 64" for ch
    using assms that unbiased_variance_nonneg [of x ch]
    by (simp add: wf_batch_norm_def momentum_def)
  then show ?thesis
    using assms by (simp add: wf_batch_norm_def update_moving_def elem_vec_tabulate)
qed

lemma update_moving_frame [simp]:
  "gamma (update_moving layer x) = gamma layer" "beta (update_moving layer x) = beta layer"
  by (simp_all add: update_moving_def)

lemma wf_model_update:
  assumes "wf_model self" and "wf_batch_norm b"
  shows "wf_model (self\<lparr>batch_norm_layers := (batch_norm_layers self)[i := b]\<rparr>)"
proof -
  have "wf_batch_norm ((batch_norm_layers self)[i := b] ! j)" if "j < 4" for j
    using assms that by (cases "i = j") (simp_all add: wf_model_def)
  then show ?thesis
    using assms(1) by (simp add: wf_model_def)
qed

lemma batch_norm_call_training:
  assumes "shape x = [N, H, W, 64]" and "wf_batch_norm layer" and "0 < N * H * W"
  shows "batch_norm_call layer x True =
           Inr (normalise layer x (channel_mean x) (channel_variance x), update_moving layer x)"
  using assms by (simp add: batch_norm_call_def wf_batch_norm_def count_nhw_def)

lemma batch_norm_call_inference:
  assumes "shape x = [N, H, W, 64]" and "wf_batch_norm layer"
  shows "batch_norm_call layer x False =
           Inr (normalise layer x (\<lambda>ch. elem (moving_mean layer) [ch])
                  (\<lambda>ch. elem (moving_variance layer) [ch]), layer)"
proof -
  have "\<not> list_ex (\<lambda>ch. elem (moving_variance layer) [ch] + epsilon \<le> 0) [0..<64]"
    using assms(2) by (auto simp: list_ex_iff wf_batch_norm_def epsilon_def not_le intro: add_nonneg_pos)
  then show ?thesis
    using assms by (simp add: batch_norm_call_def wf_batch_norm_def)
qed

lemma block_ok:
  assumes wf: "wf_model self" and i: "i < 4"
    and x: "shape x = [N, H, W, if i = 0 then self_c self else 64]"
    and pos: "training \<Longrightarrow> 0 < N * (H div 2) * (W div 2)"
  shows "\<exists>x'. block i training self x
           = Inr (x', if training
                      then self\<lparr>batch_norm_layers := (batch_norm_layers self)
                             [i := update_moving (batch_norm_layers self ! i)
                                     (max_pool2d_out (conv2d_out (conv_layers self ! i) x))]\<rparr>
                      else self)
         \<and> shape x' = [N, H div 2, W div 2, 64] \<and> wf_tensor x'"
proof -
  define c where "c = conv2d_out (conv_layers self ! i) x"
  define p where "p = max_pool2d_out c"
  have k: "shape (kernel (conv_layers self ! i)) = [3, 3, if i = 0 then self_c self else 64, 64]"
    using wf i by (simp add: wf_model_def)
  have b: "wf_batch_norm (batch_norm_layers self ! i)"
    using wf i by (simp add: wf_model_def)
  have len: "i < length (conv_layers self)" "i < length (max_pool_layers self)"
    "i < length (batch_norm_layers self)"
    using wf i by (simp_all add: wf_model_def)
  have 1: "conv2d_call (conv_layers self ! i) x = Inr c"
    by (simp add: conv2d_call_def x k c_def)
  have sc: "shape c = [N, H, W, 64]" by (simp add: c_def x)
  have 2: "max_pool2d_call (max_pool_layers self ! i) c = Inr p"
    by (simp add: max_pool2d_call_def sc p_def)
  have sp: "shape p = [N, H div 2, W div 2, 64]" by (simp add: p_def sc)
  show ?thesis
  proof (cases training)
    case True
    have 3: "batch_norm_call (batch_norm_layers self ! i) p True =
           Inr (normalise (batch_norm_layers self ! i) p (channel_mean p) (channel_variance p),
                update_moving (batch_norm_layers self ! i) p)"
      using sp b pos [OF True] by (rule batch_norm_call_training)
    show ?thesis
      using True len by (simp add: block_def index_list_def 1 2 3 sp flip: p_def c_def)
  next
    case False
    have 3: "batch_norm_call (batch_norm_layers self ! i) p False =
           Inr (normalise (batch_norm_layers self ! i) p
                  (\<lambda>ch. elem (moving_mean (batch_norm_layers self ! i)) [ch])
                  (\<lambda>ch. elem (moving_variance (batch_norm_layers self ! i)) [ch]),
                batch_norm_layers self ! i)"
      using sp b by (rule batch_norm_call_inference)
    show ?thesis
      using False len by (simp add: block_def index_list_def 1 2 3 sp)
  qed
qed

lemma upt_4: "[0..<4] = [0, 1, 2, 3]"
  by (simp add: upt_rec numeral_eq_Suc)

lemma block_step:
  assumes wf: "wf_model self" and i: "i < 4"
    and x: "shape x = [N, H, W, if i = 0 then self_c self else 64]"
    and pos: "training \<Longrightarrow> 0 < N * (H div 2) * (W div 2)"
  shows "\<exists>x' self'. block i training self x = Inr (x', self')
    \<and> shape x' = [N, H div 2, W div 2, 64] \<and> wf_tensor x' \<and> wf_model self'
    \<and> self_w self' = self_w self \<and> self_h self' = self_h self
    \<and> self_c self' = self_c self \<and> conv_layers self' = conv_layers self
    \<and> (\<not> training \<longrightarrow> self' = self)
    \<and> (training \<longrightarrow> batch_norm_layers self' = (batch_norm_layers self)
           [i := update_moving (batch_norm_layers self ! i)
                   (max_pool2d_out (conv2d_out (conv_layers self ! i) x))])"
proof -
  define self' where "self' = (if training
                      then self\<lparr>batch_norm_layers := (batch_norm_layers self)
                             [i := update_moving (batch_norm_layers self ! i)
                                     (max_pool2d_out (conv2d_out (conv_layers self ! i) x))]\<rparr>
                      else self)"
  obtain x' where 1: "block i training self x = Inr (x', self')"
    and 2: "shape x' = [N, H div 2, W div 2, 64]" and 3: "wf_tensor x'"
    using block_ok [OF wf i x pos] unfolding self'_def by blast
  have b: "wf_batch_norm (batch_norm_layers self ! i)"
    using wf i by (simp add: wf_model_def)
  have 4: "wf_model self'"
    unfolding self'_def using wf wf_model_update [OF wf wf_batch_norm_update_moving [OF b]]
    by simp
  show ?thesis
    using 1 2 3 4 by (intro exI [of _ x'] exI [of _ self']) (simp add: self'_def)
qed

lemma encoder_ok:
  assumes wf: "wf_model self" and x: "shape x = [N, H, W, self_c self]"
    and pos: "training \<Longrightarrow> 0 < N \<and> 16 \<le> H \<and> 16 \<le> W"
  shows "\<exists>x' self'. encoder [0..<length (conv_layers self)] training self x = Inr (x', self')
           \<and> shape x' = [N, H div 16, W div 16, 64] \<and> wf_tensor x' \<and> wf_model self'
           \<and> self_w self' = self_w self \<and> self_h self' = self_h self
           \<and> self_c self' = self_c self \<and> conv_layers self' = conv_layers self
           \<and> (\<not> training \<longrightarrow> self' = self)
           \<and> (training \<longrightarrow> batch_norm_layers self' ! 0
                 = update_moving (batch_norm_layers self ! 0)
                     (max_pool2d_out (conv2d_out (conv_layers self ! 0) x)))"
proof -
  have len: "length (conv_layers self) = 4" "length (batch_norm_layers self) = 4"
    using wf by (simp_all add: wf_model_def)
  have x0: "shape x = [N, H, W, if (0::nat) = 0 then self_c self else 64]"
    using x by simp
  have p1: "training \<Longrightarrow> 0 < N * (H div 2) * (W div 2)"
    using pos by auto
  obtain x1 s1 where b1: "block 0 training self x = Inr (x1, s1)"
    and sh1: "shape x1 = [N, H div 2, W div 2, 64]" and wf1: "wf_model s1"
    and f1: "self_w s1 = self_w self" "self_h s1 = self_h self" "self_c s1 = self_c self"
      "conv_layers s1 = conv_layers self"
    and n1: "\<not> training \<longrightarrow> s1 = self"
    and t1: "training \<longrightarrow> batch_norm_layers s1 = (batch_norm_layers self)
           [0 := update_moving (batch_norm_layers self ! 0)
                   (max_pool2d_out (conv2d_out (conv_layers self ! 0) x))]"
    using block_step [where i = 0 and training = training, OF wf _ x0 p1] by auto
  have x1': "shape x1 = [N, H div 2, W div 2, if (1::nat) = 0 then self_c s1 else 64]"
    using sh1 by simp
  have p2: "training \<Longrightarrow> 0 < N * (H div 2 div 2) * (W div 2 div 2)"
    using pos by auto
  obtain x2 s2 where b2: "block 1 training s1 x1 = Inr (x2, s2)"
    and sh2: "shape x2 = [N, H div 2 div 2, W div 2 div 2, 64]" and wf2: "wf_model s2"
    and f2: "self_w s2 = self_w s1" "self_h s2 = self_h s1" "self_c s2 = self_c s1"
      "conv_layers s2 = conv_layers s1"
    and n2: "\<not> training \<longrightarrow> s2 = s1"
    and t2: "training \<longrightarrow> batch_norm_layers s2 = (batch_norm_layers s1)
           [1 := update_moving (batch_norm_layers s1 ! 1)
                   (max_pool2d_out (conv2d_out (conv_layers s1 ! 1) x1))]"
    using block_step [where i = 1 and training = training, OF wf1 _ x1' p2] by auto
  have x2': "shape x2 = [N, H div 2 div 2, W div 2 div 2, if (2::nat) = 0 then self_c s2 else 64]"
    using sh2 by simp
  have p3: "training \<Longrightarrow> 0 < N * (H div 2 div 2 div 2) * (W div 2 div 2 div 2)"
    using pos by auto
  obtain x3 s3 where b3: "block 2 training s2 x2 = Inr (x3, s3)"
    and sh3: "shape x3 = [N, H div 2 div 2 div 2, W div 2 div 2 div 2, 64]" and wf3: "wf_model s3"
    and f3: "self_w s3 = self_w s2" "self_h s3 = self_h s2" "self_c s3 = self_c s2"
      "conv_layers s3 = conv_layers s2"
    and n3: "\<not> training \<longrightarrow> s3 = s2"
    and t3: "training \<longrightarrow> batch_norm_layers s3 = (batch_norm_layers s2)
           [2 := update_moving (batch_norm_layers s2 ! 2)
                   (max_pool2d_out (conv2d_out (conv_layers s2 ! 2) x2))]"
    using block_step [where i = 2 and training = training, OF wf2 _ x2' p3] by auto
  have x3': "shape x3 = [N, H div 2 div 2 div 2, W div 2 div 2 div 2,
                         if (3::nat) = 0 then self_c s3 else 64]"
    using sh3 by simp
  have p4: "training \<Longrightarrow> 0 < N * (H div 2 div 2 div 2 div 2) * (W div 2 div 2 div 2 div 2)"
    using pos by auto
  obtain x4 s4 where b4: "block 3 training s3 x3 = Inr (x4, s4)"
    and sh4: "shape x4 = [N, H div 2 div 2 div 2 div 2, W div 2 div 2 div 2 div 2, 64]"
    and w4: "wf_tensor x4" and wf4: "wf_model s4"
    and f4: "self_w s4 = self_w s3" "self_h s4 = self_h s3" "self_c s4 = self_c s3"
      "conv_layers s4 = conv_layers s3"
    and n4: "\<not> training \<longrightarrow> s4 = s3"
    and t4: "training \<longrightarrow> batch_norm_layers s4 = (batch_norm_layers s3)
           [3 := update_moving (batch_norm_layers s3 ! 3)
                   (max_pool2d_out (conv2d_out (conv_layers s3 ! 3) x3))]"
    using block_step [where i = 3 and training = training, OF wf3 _ x3' p4] by auto
  have run: "encoder [0..<length (conv_layers self)] training self x = Inr (x4, s4)"
    using b1 b2 b3 b4 by (simp add: len upt_4)
  have d16: "a div 2 div 2 div 2 div 2 = a div 16" for a :: nat
    by (simp add: div_mult2_eq [symmetric])
  have l0: "training \<Longrightarrow> batch_norm_layers s4 ! 0
                 = update_moving (batch_norm_layers self ! 0)
                     (max_pool2d_out (conv2d_out (conv_layers self ! 0) x))"
    using len by (simp add: t1 t2 t3 t4)
  show ?thesis
    using run sh4 w4 wf4 f1 f2 f3 f4 n1 n2 n3 n4 l0 by (auto simp: d16)
qed

subsection \<open>The embeddings\<close>

lemma tf_reshape_plain:
  assumes "\<forall>d\<in>set dims. 0 \<le> d" and "prod_list dims = int (length (buf t))"
  shows "tf_reshape t dims = Inr \<lparr>shape = map nat dims, buf = buf t\<rparr>"
proof -
  have "filter (\<lambda>d. d \<noteq> - 1) dims = dims"
    using assms(1) by (auto simp: filter_id_conv)
  moreover have "\<not> list_ex (\<lambda>d. d < - 1) dims"
    using assms(1) by (auto simp: list_ex_iff)
  ultimately show ?thesis
    using assms(2) by (simp add: tf_reshape_def Let_def)
qed

lemma tf_reshape_mismatch:
  assumes "\<forall>d\<in>set dims. 0 \<le> d" and "prod_list dims \<noteq> int (length (buf t))"
  shows "tf_reshape t dims = Inl InvalidArgumentError"
proof -
  have "filter (\<lambda>d. d \<noteq> - 1) dims = dims"
    using assms(1) by (auto simp: filter_id_conv)
  then show ?thesis
    using assms(2) by (simp add: tf_reshape_def Let_def)
qed

lemma flatten_call_4:
  "shape x = [N, H, W, C] \<Longrightarrow> flatten_call x = Inr \<lparr>shape = [N, H * W * C], buf = buf x\<rparr>"
  by (simp add: flatten_call_def mult.assoc)

lemma embed_support_ok:
  assumes wf: "wf_model self" and s: "support_set self support n_class n_support"
  shows "\<exists>z_prototypes self'. embed_support self support n_class n_support = Inr (z_prototypes, self')
           \<and> shape z_prototypes = [n_class, self_w self div 16 * (self_h self div 16) * 64]
           \<and> wf_model self'
           \<and> self_w self' = self_w self \<and> self_h self' = self_h self
           \<and> self_c self' = self_c self \<and> conv_layers self' = conv_layers self
           \<and> batch_norm_layers self' ! 0
                 = update_moving (batch_norm_layers self ! 0)
                     (max_pool2d_out (conv2d_out (conv_layers self ! 0)
                        \<lparr>shape = [n_class * n_support, self_w self, self_h self, self_c self],
                         buf = buf support\<rparr>))"
proof -
  define x where "x = \<lparr>shape = [n_class * n_support, self_w self, self_h self, self_c self],
                         buf = buf support\<rparr>"
  define D where "D = self_w self div 16 * (self_h self div 16) * 64"
  have sh: "shape support = [n_class, n_support, self_w self, self_h self, self_c self]"
    and len: "length (buf support) = n_class * n_support * self_w self * self_h self * self_c self"
    and pos: "0 < n_class" "0 < n_support" "16 \<le> self_w self" "16 \<le> self_h self"
    using s by (simp_all add: support_set_def wf_tensor_def mult.assoc)
  have 1: "tf_reshape support [int (n_class * n_support), int (self_w self), int (self_h self),
              int (self_c self)] = Inr x"
    unfolding x_def by (subst tf_reshape_plain) (simp_all add: len nat_mult_distrib)
  have sx: "shape x = [n_class * n_support, self_w self, self_h self, self_c self]"
    by (simp add: x_def)
  have p: "True \<Longrightarrow> 0 < n_class * n_support \<and> 16 \<le> self_w self \<and> 16 \<le> self_h self"
    using pos by simp
  obtain e self' where 2: "encoder [0..<length (conv_layers self)] True self x = Inr (e, self')"
    and se: "shape e = [n_class * n_support, self_w self div 16, self_h self div 16, 64]"
    and we: "wf_tensor e" and wf': "wf_model self'"
    and fr: "self_w self' = self_w self" "self_h self' = self_h self"
      "self_c self' = self_c self" "conv_layers self' = conv_layers self"
    and l0: "batch_norm_layers self' ! 0 = update_moving (batch_norm_layers self ! 0)
                     (max_pool2d_out (conv2d_out (conv_layers self ! 0) x))"
    using encoder_ok [where training = True, OF wf sx p] by auto
  define z where "z = \<lparr>shape = [n_class * n_support, D], buf = buf e\<rparr>"
  have 3: "flatten_call e = Inr z"
    by (simp add: flatten_call_4 [OF se] z_def D_def)
  have 4: "dim z (length (shape z) - 1) = Inr D"
    by (simp add: dim_def z_def)
  have lz: "length (buf z) = n_class * n_support * D"
    using we by (simp add: z_def wf_tensor_def se D_def mult.assoc)
  define z3 where "z3 = \<lparr>shape = [n_class, n_support, D], buf = buf z\<rparr>"
  have 5: "tf_reshape z [int n_class, int n_support, int D] = Inr z3"
    unfolding z3_def by (subst tf_reshape_plain) (simp_all add: lz)
  define zp where "zp = tabulate [n_class, D]
      (\<lambda>idx. sum_list (map (\<lambda>k. elem z3 (along 1 idx k)) [0..<n_support]) / real n_support)"
  have 6: "tf_reduce_mean z3 1 = Inr zp"
    using pos by (simp add: tf_reduce_mean_def normalize_axis_def z3_def zp_def reduced_shape_def)
  have "embed_support self support n_class n_support = Inr (zp, self')"
    by (simp only: embed_support_def 1 2 3 4 5 6 bnd_Inr case_prod_conv)
  then show ?thesis
    using wf' fr l0 by (simp add: zp_def D_def x_def)
qed

lemma embed_query_ok:
  assumes wf: "wf_model self" and q: "query_set self query n_class n_query"
  shows "\<exists>z_query. embed_query self query n_class n_query = Inr (z_query, self)
           \<and> shape z_query = [n_class * n_query, self_w self div 16 * (self_h self div 16) * 64]"
proof -
  define x where "x = \<lparr>shape = [n_class * n_query, self_w self, self_h self, self_c self],
                         buf = buf query\<rparr>"
  have len: "length (buf query) = n_class * n_query * self_w self * self_h self * self_c self"
    using q by (simp_all add: query_set_def wf_tensor_def mult.assoc)
  have 1: "tf_reshape query [int (n_class * n_query), int (self_w self), int (self_h self),
              int (self_c self)] = Inr x"
    unfolding x_def by (subst tf_reshape_plain) (simp_all add: len nat_mult_distrib)
  have sx: "shape x = [n_class * n_query, self_w self, self_h self, self_c self]"
    by (simp add: x_def)
  have p: "False \<Longrightarrow> 0 < n_class * n_query \<and> 16 \<le> self_w self \<and> 16 \<le> self_h self"
    by simp
  obtain e where 2: "encoder [0..<length (conv_layers self)] False self x = Inr (e, self)"
    and se: "shape e = [n_class * n_query, self_w self div 16, self_h self div 16, 64]"
    using encoder_ok [where training = False, OF wf sx p] by auto
  show ?thesis
    by (simp only: embed_query_def 1 2 flatten_call_4 [OF se] bnd_Inr case_prod_conv) simp
qed

text \<open>A query set of another number of classes does not survive the reshape.\<close>

lemma embed_query_mismatch:
  assumes q: "query_set self query n_class' n_query" and ne: "n_class' \<noteq> n_class"
    and pos: "0 < self_w self" "0 < self_h self" "0 < self_c self"
  shows "tf_reshape query [int (n_class * n_query), int (self_w self), int (self_h self),
              int (self_c self)] = Inl InvalidArgumentError"
    and "embed_query self query n_class n_query = Inl InvalidArgumentError"
proof -
  have len: "length (buf query) = n_class' * (n_query * self_w self * self_h self * self_c self)"
    and nq: "0 < n_query"
    using q by (simp_all add: query_set_def wf_tensor_def mult.assoc)
  have "n_class * (n_query * self_w self * self_h self * self_c self)
      \<noteq> n_class' * (n_query * self_w self * self_h self * self_c self)"
    using ne pos nq by simp
  then have "prod_list [int (n_class * n_query), int (self_w self), int (self_h self),
              int (self_c self)] \<noteq> int (length (buf query))"
    unfolding len by (simp add: mult.assoc flip: of_nat_mult)
  then show 1: "tf_reshape query [int (n_class * n_query), int (self_w self), int (self_h self),
              int (self_c self)] = Inl InvalidArgumentError"
    by (intro tf_reshape_mismatch) simp_all
  show "embed_query self query n_class n_query = Inl InvalidArgumentError"
    by (simp only: embed_query_def 1 bnd_Inl)
qed

subsection \<open>The labels, the loss and the accuracy\<close>

lemma labels_ok:
  "\<exists>y. labels n_class n_query = Inr (y, tf_one_hot y n_class)
       \<and> shape y = [n_class, n_query] \<and> wf_tensor y
       \<and> (\<forall>k<n_class. \<forall>i<n_query. elem y [k, i] = int k)"
proof -
  define col where "col = \<lparr>shape = [n_class, 1], buf = map int [0..<n_class]\<rparr>"
  define y where "y = tabulate [n_class, n_query]
      (\<lambda>idx. elem col (map2 (\<lambda>i d. i mod d) idx [n_class, 1]))"
  define t1 where "t1 = \<lparr>shape = [n_class, 1], buf = map int [0..<n_class]\<rparr>"
  have 1: "tf_expand_dims (np_arange n_class) 1 = Inr col"
    by (simp add: tf_expand_dims_def np_arange_def col_def)
  have 2: "np_tile col [1, n_query] = Inr y"
    by (simp add: np_tile_def tf_tile_def col_def y_def)
  have 3: "tf_reshape (tf_range n_class) [int n_class, 1] = Inr t1"
    unfolding t1_def by (subst tf_reshape_plain) (simp_all add: tf_range_def)
  have 4: "\<exists>t. tf_tile t1 [1, n_query] = Inr t"
    by (simp add: tf_tile_def t1_def)
  then obtain t2 where 4: "tf_tile t1 [1, n_query] = Inr t2" ..
  have run: "labels n_class n_query = Inr (y, tf_one_hot y n_class)"
    by (simp only: labels_def 1 2 3 4 bnd_Inr Let_def tf_cast_float32_def)
  have el: "elem y [k, i] = int k" if "k < n_class" "i < n_query" for k i
    using that by (simp add: y_def elem_tabulate) (simp add: elem_def col_def)
  show ?thesis
    using run el by (intro exI [of _ y]) (simp add: y_def)
qed

subsection \<open>argmax\<close>

lemma argmax_list_less:
  assumes "xs \<noteq> []"
  shows "argmax_list xs < length xs"
proof -
  let ?t = "takeWhile (\<lambda>v. v \<noteq> Max (set xs)) xs"
  have "Max (set xs) \<in> set xs" using assms by (intro Max_in) simp_all
  then have ne: "?t \<noteq> xs" by (auto simp: takeWhile_eq_all_conv)
  have "length ?t \<noteq> length xs"
  proof
    assume "length ?t = length xs"
    then have "?t = xs" using takeWhile_eq_take [of "\<lambda>v. v \<noteq> Max (set xs)" xs] by simp
    then show False using ne by simp
  qed
  then show ?thesis
    using length_takeWhile_le [of "\<lambda>v. v \<noteq> Max (set xs)" xs] by (simp add: argmax_list_def)
qed

lemma argmax_list_max: "xs \<noteq> [] \<Longrightarrow> xs ! argmax_list xs = Max (set xs)"
  using nth_length_takeWhile [of "\<lambda>v. v \<noteq> Max (set xs)" xs] argmax_list_less [of xs]
  by (simp add: argmax_list_def)

lemma argmax_list_first: "j < argmax_list xs \<Longrightarrow> xs ! j \<noteq> Max (set xs)"
proof -
  assume j: "j < argmax_list xs"
  then have "takeWhile (\<lambda>v. v \<noteq> Max (set xs)) xs ! j = xs ! j"
    unfolding argmax_list_def by (rule takeWhile_nth)
  moreover have "takeWhile (\<lambda>v. v \<noteq> Max (set xs)) xs ! j \<in> set (takeWhile (\<lambda>v. v \<noteq> Max (set xs)) xs)"
    using j unfolding argmax_list_def by (rule nth_mem)
  ultimately show ?thesis
    by (auto dest: set_takeWhileD)
qed

lemma argmax_list_iff:
  assumes "xs \<noteq> []"
  shows "(argmax_list xs = j) =
           (j < length xs \<and> (\<forall>j'<length xs. xs ! j' \<le> xs ! j) \<and> (\<forall>j'<j. xs ! j' < xs ! j))"
proof
  assume a: "argmax_list xs = j"
  have m: "xs ! j = Max (set xs)" using argmax_list_max [OF assms] a by simp
  have "xs ! j' \<le> xs ! j" if "j' < length xs" for j'
    using that by (simp add: m)
  moreover have "xs ! j' < xs ! j" if "j' < j" for j'
  proof -
    have "xs ! j' \<noteq> Max (set xs)" using that a argmax_list_first by blast
    moreover have "j' < length xs" using that a argmax_list_less [OF assms] by simp
    then have "xs ! j' \<le> Max (set xs)" by simp
    ultimately show ?thesis by (simp add: m)
  qed
  ultimately show "j < length xs \<and> (\<forall>j'<length xs. xs ! j' \<le> xs ! j) \<and> (\<forall>j'<j. xs ! j' < xs ! j)"
    using a argmax_list_less [OF assms] by blast
next
  assume r: "j < length xs \<and> (\<forall>j'<length xs. xs ! j' \<le> xs ! j) \<and> (\<forall>j'<j. xs ! j' < xs ! j)"
  let ?a = "argmax_list xs"
  have al: "?a < length xs" by (rule argmax_list_less [OF assms])
  have "Max (set xs) \<le> xs ! j"
    using r assms by (auto simp: in_set_conv_nth)
  moreover have "xs ! j \<le> Max (set xs)" using r by simp
  ultimately have m: "xs ! j = Max (set xs)" by simp
  have "\<not> ?a < j"
    using r argmax_list_max [OF assms] m by auto
  moreover have "\<not> j < ?a"
    using argmax_list_first [of j xs] m by auto
  ultimately show "?a = j" by simp
qed

lemma wrap_int32_id: "0 \<le> v \<Longrightarrow> v < 2 ^ 31 \<Longrightarrow> wrap_int32 v = v"
  by (simp add: wrap_int32_def)

lemma elem_tf_negative:
  "ravel (shape t) idx < length (buf t) \<Longrightarrow> elem (tf_negative t) idx = - elem t idx"
  by (simp add: elem_def tf_negative_def)

lemma elem_tf_cast_int32:
  "ravel (shape t) idx < length (buf t) \<Longrightarrow> elem (tf_cast_int32 t) idx = wrap_int32 (elem t idx)"
  by (simp add: elem_def tf_cast_int32_def)

lemma sum_list_indicator:
  "k < n \<Longrightarrow> sum_list (map (\<lambda>j. (if int j = int k then 1 else 0) * f j) [0..<n]) = (f k :: real)"
proof -
  assume k: "k < n"
  have "sum_list (map (\<lambda>j. (if int j = int k then 1 else 0) * f j) [0..<n])
      = (\<Sum>j<n. if j = k then f j else 0)"
    unfolding sum_list_upt_sum by (intro sum.cong) simp_all
  also have "\<dots> = f k" using k by simp
  finally show ?thesis .
qed

lemma sum_indicator_card:
  "(\<Sum>q<n. if P q then 1 else 0) = real (card {q. q < (n::nat) \<and> P q})"
proof -
  have "real (card {q. q < n \<and> P q}) = (\<Sum>q\<in>{q \<in> {..<n}. P q}. 1)"
    by simp
  also have "\<dots> = (\<Sum>q<n. if P q then 1 else 0)"
    by (rule sum.inter_filter) simp
  finally show ?thesis by simp
qed

lemma loss_acc_ok:
  assumes d: "shape dists = [n_class * n_query, n_class]" and wd: "wf_tensor dists"
    and y: "shape y = [n_class, n_query]" and wy: "wf_tensor y"
    and yv: "\<And>k i. k < n_class \<Longrightarrow> i < n_query \<Longrightarrow> elem y [k, i] = int k"
    and nc: "0 < n_class" and nq: "0 < n_query"
  shows "\<exists>acc. loss_acc y (tf_one_hot y n_class) n_class n_query dists
                 = Inr (spec_loss n_class n_query dists, acc)
           \<and> (n_class \<le> 2 ^ 31 \<longrightarrow> acc = spec_accuracy n_class n_query dists)"
proof -
  define Q where "Q = n_class * n_query"
  define N where "N = tf_negative dists"
  define L2 where "L2 = tabulate [Q, n_class]
     (\<lambda>idx. elem N idx - ln (sum_list (map (\<lambda>k. exp (elem N (idx[1 := k]))) [0..<n_class])))"
  define L3 where "L3 = \<lparr>shape = [n_class, n_query, n_class], buf = buf L2\<rparr>"
  define OH where "OH = tf_one_hot y n_class"
  define W where "W = tabulate [n_class, n_query, n_class]
     (\<lambda>idx. elem OH (bidx [n_class, n_query, n_class] idx)
             * elem L3 (bidx [n_class, n_query, n_class] idx))"
  define PQ where "PQ = tabulate [n_class, n_query]
     (\<lambda>idx. sum_list (map (\<lambda>j. elem W (along 2 idx j)) [0..<n_class]))"
  define PQ1 where "PQ1 = \<lparr>shape = [Q], buf = buf PQ\<rparr>"
  define P where "P = tabulate [n_class, n_query]
     (\<lambda>idx. int (argmax_list (map (\<lambda>j. elem L3 (along 2 idx j)) [0..<n_class])))"
  define EQ where "EQ = tabulate [n_class, n_query]
     (\<lambda>idx. elem (tf_cast_int32 P) (bidx [n_class, n_query] idx)
             = elem (tf_cast_int32 y) (bidx [n_class, n_query] idx))"
  have Qpos: "0 < Q" using nc nq by (simp add: Q_def)
  have sN: "shape N = [Q, n_class]" by (simp add: N_def tf_negative_def d Q_def)
  have 1: "tf_log_softmax N (- 1) = Inr L2"
    by (simp add: tf_log_softmax_def normalize_axis_def sN L2_def)
  have lL2: "length (buf L2) = Q * n_class" by (simp add: L2_def)
  have dv: "int (length (buf L2)) div (int n_class * int n_query) = int n_class"
    and md: "int (length (buf L2)) mod (int n_class * int n_query) = 0"
    using nc nq by (simp_all add: lL2 Q_def)
  have 2: "tf_reshape L2 [int n_class, int n_query, - 1] = Inr L3"
    using nc nq by (simp add: tf_reshape_def Let_def dv md L3_def)
  have 3: "tf_multiply OH L3 = Inr W"
    by (simp add: tf_multiply_def broadcast_op_same OH_def tf_one_hot_def y L3_def W_def)
  have sW: "shape W = [n_class, n_query, n_class]" by (simp add: W_def)
  have 4: "tf_reduce_sum W (- 1) = Inr PQ"
    by (simp add: tf_reduce_sum_def normalize_axis_def sW PQ_def reduced_shape_def)
  have lPQ: "length (buf PQ) = Q" by (simp add: PQ_def Q_def)
  have 5: "tf_reshape PQ [- 1] = Inr PQ1"
    by (simp add: tf_reshape_def Let_def lPQ PQ1_def)
  have 6: "tf_reduce_mean_all PQ1 = Inr (sum_list (buf PQ) / real Q)"
    using Qpos lPQ by (auto simp: tf_reduce_mean_all_def PQ1_def)
  have 7: "tf_argmax L3 (- 1) = Inr P"
    using nc by (simp add: tf_argmax_def normalize_axis_def L3_def P_def reduced_shape_def)
  have 8: "tf_equal (tf_cast_int32 P) (tf_cast_int32 y) = Inr EQ"
    by (simp add: tf_equal_def broadcast_op_same tf_cast_int32_def P_def y EQ_def)
  have lEQ: "length (buf EQ) = Q" by (simp add: EQ_def Q_def)
  have 9: "tf_reduce_mean_all (tf_cast_bool_float32 EQ)
         = Inr (sum_list (map (\<lambda>b. if b then 1 else 0) (buf EQ)) / real Q)"
    using Qpos lEQ by (auto simp: tf_reduce_mean_all_def tf_cast_bool_float32_def)
  have run: "loss_acc y (tf_one_hot y n_class) n_class n_query dists
     = Inr (- (sum_list (buf PQ) / real Q),
            sum_list (map (\<lambda>b. if b then 1 else 0) (buf EQ)) / real Q)"
    by (simp only: loss_acc_def 1 2 3 4 5 6 7 8 9 bnd_Inr Let_def
        flip: N_def OH_def)
  txt \<open>The log-probabilities.\<close>
  have lp: "elem L3 [k, i, j] = spec_log_p dists (k * n_query + i) j"
    if k: "k < n_class" and i: "i < n_query" and j: "j < n_class" for k i j
  proof -
    have q: "k * n_query + i < Q"
    proof -
      have "k * n_query + i < Suc k * n_query" using i by simp
      also have "\<dots> \<le> n_class * n_query" using k by (intro mult_le_mono1) simp
      finally show ?thesis by (simp add: Q_def)
    qed
    have neg: "elem N [k * n_query + i, j'] = - elem dists [k * n_query + i, j']"
      if "j' < n_class" for j'
    proof -
      have "in_bounds (shape dists) [k * n_query + i, j']"
        using q that by (simp add: d Q_def)
      then have "ravel (shape dists) [k * n_query + i, j'] < length (buf dists)"
        using wd ravel_less by (simp add: wf_tensor_def)
      then show ?thesis unfolding N_def by (rule elem_tf_negative)
    qed
    have "elem L3 [k, i, j] = elem L2 [k * n_query + i, j]"
      by (simp add: elem_def L3_def L2_def algebra_simps)
    also have "\<dots> = elem N [k * n_query + i, j]
         - ln (sum_list (map (\<lambda>k'. exp (elem N [k * n_query + i, k'])) [0..<n_class]))"
      unfolding L2_def using q j by (simp add: elem_tabulate)
    also have "map (\<lambda>k'. exp (elem N [k * n_query + i, k'])) [0..<n_class]
        = map (\<lambda>k'. exp (- elem dists [k * n_query + i, k'])) [0..<n_class]"
      by (rule map_cong) (simp_all add: neg)
    finally show ?thesis
      by (simp add: spec_log_p_def d neg [OF j] sum_list_upt_sum)
  qed
  have dm: "q div n_query < n_class" "q mod n_query < n_query"
    "q div n_query * n_query + q mod n_query = q" if "q < Q" for q
    using that nq by (simp_all add: Q_def less_mult_imp_div_less mult.commute)
  have un: "unravel [n_class, n_query] q = [q div n_query, q mod n_query]" for q
    by simp
  txt \<open>The loss.\<close>
  have pq: "buf PQ ! q = spec_log_p dists q (spec_true_class n_query q)" if q: "q < Q" for q
  proof -
    let ?k = "q div n_query" and ?i = "q mod n_query"
    have w: "elem W [?k, ?i, j] = (if int j = int ?k then 1 else 0) * spec_log_p dists q j"
      if j: "j < n_class" for j
    proof -
      have ib: "in_bounds [n_class, n_query, n_class] [?k, ?i, j]"
        using dm [OF q] j by simp
      have "elem W [?k, ?i, j] = elem OH [?k, ?i, j] * elem L3 [?k, ?i, j]"
        unfolding W_def using ib by (simp add: elem_tabulate bidx_same del: in_bounds_Cons)
      also have "elem OH [?k, ?i, j] = (if int j = int ?k then 1 else 0)"
        unfolding OH_def tf_one_hot_def using ib dm [OF q]
        by (simp add: elem_tabulate y yv del: in_bounds_Cons)
      also have "elem L3 [?k, ?i, j] = spec_log_p dists q j"
        using lp [of ?k ?i j] dm [OF q] j by simp
      finally show ?thesis .
    qed
    have "buf PQ ! q = sum_list (map (\<lambda>j. elem W [?k, ?i, j]) [0..<n_class])"
      unfolding PQ_def using q by (simp add: buf_tabulate_nth Q_def along_def)
    also have "map (\<lambda>j. elem W [?k, ?i, j]) [0..<n_class]
        = map (\<lambda>j. (if int j = int ?k then 1 else 0) * spec_log_p dists q j) [0..<n_class]"
      by (rule map_cong) (simp_all add: w)
    also have "sum_list \<dots> = spec_log_p dists q ?k"
      using dm(1) [OF q] by (rule sum_list_indicator)
    finally show ?thesis by (simp add: spec_true_class_def)
  qed
  have "buf PQ = map (\<lambda>q. spec_log_p dists q (spec_true_class n_query q)) [0..<Q]"
    by (rule nth_equalityI) (simp_all add: lPQ pq)
  then have loss: "- (sum_list (buf PQ) / real Q) = spec_loss n_class n_query dists"
    by (simp add: spec_loss_def sum_list_upt_sum Q_def)
  txt \<open>The accuracy.\<close>
  have eqv: "buf EQ ! q = spec_predicted dists q (spec_true_class n_query q)"
    if q: "q < Q" and small: "n_class \<le> 2 ^ 31" for q
  proof -
    let ?k = "q div n_query" and ?i = "q mod n_query"
    let ?row = "map (\<lambda>j. elem L3 [?k, ?i, j]) [0..<n_class]"
    have ib: "in_bounds [n_class, n_query] [?k, ?i]" using dm [OF q] by simp
    have row: "elem L3 [?k, ?i, j] = spec_log_p dists q j" if "j < n_class" for j
      using that lp [of ?k ?i j] dm [OF q] by simp
    have ne: "?row \<noteq> []" using nc by simp
    have am: "argmax_list ?row < n_class" using argmax_list_less [OF ne] by simp
    have rP: "ravel (shape P) [?k, ?i] < length (buf P)"
      using ravel_less [OF ib] by (simp add: P_def)
    have ry: "ravel (shape y) [?k, ?i] < length (buf y)"
      using ravel_less [OF ib] wy by (simp add: y wf_tensor_def)
    have "buf EQ ! q = (elem (tf_cast_int32 P) [?k, ?i] = elem (tf_cast_int32 y) [?k, ?i])"
      unfolding EQ_def using q ib by (simp add: buf_tabulate_nth Q_def bidx_same del: in_bounds_Cons)
    also have "elem (tf_cast_int32 P) [?k, ?i] = wrap_int32 (int (argmax_list ?row))"
      unfolding elem_tf_cast_int32 [OF rP] unfolding P_def using ib
      by (simp add: elem_tabulate along_def del: in_bounds_Cons)
    also have "\<dots> = int (argmax_list ?row)"
      using am small by (intro wrap_int32_id) simp_all
    also have "elem (tf_cast_int32 y) [?k, ?i] = wrap_int32 (int ?k)"
      unfolding elem_tf_cast_int32 [OF ry] using dm [OF q] by (simp add: yv)
    also have "\<dots> = int ?k"
      using dm(1) [OF q] small by (intro wrap_int32_id) simp_all
    finally have "buf EQ ! q = (argmax_list ?row = ?k)" by simp
    also have "\<dots> = (?k < n_class \<and> (\<forall>j'<n_class. ?row ! j' \<le> ?row ! ?k)
              \<and> (\<forall>j'<?k. ?row ! j' < ?row ! ?k))"
      using argmax_list_iff [OF ne, of ?k] by simp
    also have "\<dots> = (?k < n_class
              \<and> (\<forall>j'<n_class. spec_log_p dists q j' \<le> spec_log_p dists q ?k)
              \<and> (\<forall>j'<?k. spec_log_p dists q j' < spec_log_p dists q ?k))"
      using dm(1) [OF q] by (simp add: row)
    also have "\<dots> = spec_predicted dists q ?k"
      by (simp add: spec_predicted_def d)
    finally show ?thesis by (simp add: spec_true_class_def)
  qed
  have acc: "sum_list (map (\<lambda>b. if b then 1 else 0) (buf EQ)) / real Q
       = spec_accuracy n_class n_query dists" if small: "n_class \<le> 2 ^ 31"
  proof -
    have "map (\<lambda>b. if b then 1 else 0) (buf EQ)
        = map (\<lambda>q. if spec_predicted dists q (spec_true_class n_query q) then 1 else (0::real))
            [0..<Q]"
      by (rule nth_equalityI) (simp_all add: lEQ eqv [OF _ small])
    then show ?thesis
      by (simp add: spec_accuracy_def spec_correct_def sum_list_upt_sum sum_indicator_card Q_def)
  qed
  show ?thesis
    unfolding run loss using acc by simp
qed

subsection \<open>call\<close>

lemma call_ok:
  assumes wf: "wf_model self" and e: "episode self support query n_class n_support n_query"
  shows "\<exists>dists self' acc.
           call_dists self support query = Inr (dists, self')
         \<and> shape dists = [n_class * n_query, n_class]
         \<and> call self support query training
              = Inr ((spec_loss n_class n_query dists, acc), self')
         \<and> (n_class \<le> 2 ^ 31 \<longrightarrow> acc = spec_accuracy n_class n_query dists)
         \<and> wf_model self'
         \<and> batch_norm_layers self' ! 0
                 = update_moving (batch_norm_layers self ! 0)
                     (max_pool2d_out (conv2d_out (conv_layers self ! 0)
                        \<lparr>shape = [n_class * n_support, self_w self, self_h self, self_c self],
                         buf = buf support\<rparr>))"
proof -
  have s: "support_set self support n_class n_support"
    and q: "query_set self query n_class n_query"
    using e by (simp_all add: episode_def)
  have pos: "0 < n_class" "0 < n_query" "16 \<le> self_w self" "16 \<le> self_h self"
    using s q by (simp_all add: support_set_def query_set_def)
  define D where "D = self_w self div 16 * (self_h self div 16) * 64"
  have D: "0 < D" using pos by (simp add: D_def div_greater_zero_iff)
  have d0: "dim support 0 = Inr n_class" and d1: "dim support 1 = Inr n_support"
    and d2: "dim query 1 = Inr n_query"
    using s q by (simp_all add: dim_def support_set_def query_set_def)
  obtain y where lab: "labels n_class n_query = Inr (y, tf_one_hot y n_class)"
    and sy: "shape y = [n_class, n_query]" and wy: "wf_tensor y"
    and yv: "\<And>k i. k < n_class \<Longrightarrow> i < n_query \<Longrightarrow> elem y [k, i] = int k"
    using labels_ok [of n_class n_query] by blast
  obtain zp self' where es: "embed_support self support n_class n_support = Inr (zp, self')"
    and szp: "shape zp = [n_class, D]" and wf': "wf_model self'"
    and fr: "self_w self' = self_w self" "self_h self' = self_h self" "self_c self' = self_c self"
    and l0: "batch_norm_layers self' ! 0
                 = update_moving (batch_norm_layers self ! 0)
                     (max_pool2d_out (conv2d_out (conv_layers self ! 0)
                        \<lparr>shape = [n_class * n_support, self_w self, self_h self, self_c self],
                         buf = buf support\<rparr>))"
    using embed_support_ok [OF wf s] unfolding D_def by blast
  have q': "query_set self' query n_class n_query"
    using q by (simp add: query_set_def fr)
  obtain zq where eq: "embed_query self' query n_class n_query = Inr (zq, self')"
    and szq: "shape zq = [n_class * n_query, D]"
    using embed_query_ok [OF wf' q'] unfolding D_def fr by blast
  obtain dists where cd: "calc_euclidian_dists zq zp = Inr dists"
    and sd: "shape dists = [n_class * n_query, n_class]" and wd: "wf_tensor dists"
    using calc_euclidian_dists_elem [OF szq szp D] by blast
  obtain acc where la: "loss_acc y (tf_one_hot y n_class) n_class n_query dists
                 = Inr (spec_loss n_class n_query dists, acc)"
    and av: "n_class \<le> 2 ^ 31 \<longrightarrow> acc = spec_accuracy n_class n_query dists"
    using loss_acc_ok [OF sd wd sy wy yv pos(1) pos(2)] by blast
  have 1: "call_dists self support query = Inr (dists, self')"
    by (simp only: call_dists_def d0 d1 d2 es eq cd bnd_Inr case_prod_conv)
  have 2: "call self support query training
              = Inr ((spec_loss n_class n_query dists, acc), self')"
    by (simp only: call_def d0 d1 d2 lab es eq cd la bnd_Inr case_prod_conv)
  show ?thesis
    using 1 2 sd av wf' l0 by blast
qed

subsection \<open>The example inputs are well formed\<close>

lemma wf_full [simp]: "wf_tensor (full sh v)"
  by (simp add: wf_tensor_def full_def)

lemma shape_full [simp]: "shape (full sh v) = sh"
  by (simp add: full_def)

lemma elem_full: "in_bounds sh idx \<Longrightarrow> elem (full sh v) idx = v"
  using ravel_less [of sh idx] by (simp add: elem_def full_def)

lemma less_4_cases: "i < (4::nat) \<Longrightarrow> i = 0 \<or> i = 1 \<or> i = 2 \<or> i = 3"
  by arith

lemma wf_fresh_batch_norm: "wf_batch_norm fresh_batch_norm"
  by (simp add: wf_batch_norm_def fresh_batch_norm_def elem_full)

lemma wf_example_model: "wf_model example_model"
proof -
  have "shape (kernel (conv_layers example_model ! i))
          = [3, 3, if i = 0 then self_c example_model else 64, 64]" if "i < 4" for i
    using less_4_cases [OF that] by (auto simp: example_model_def)
  moreover have "wf_batch_norm (batch_norm_layers example_model ! i)" if "i < 4" for i
    using less_4_cases [OF that] by (auto simp: example_model_def wf_fresh_batch_norm)
  ultimately show ?thesis
    by (simp add: wf_model_def) (simp add: example_model_def)
qed

lemma support_set_example: "support_set example_model example_support 2 1"
  by (simp add: support_set_def example_support_def) (simp add: example_model_def)

lemma query_set_example: "query_set example_model example_query 2 3"
  by (simp add: query_set_def example_query_def) (simp add: example_model_def)

lemma query_set_example_one_class: "query_set example_model example_query_one_class 1 3"
  by (simp add: query_set_def example_query_one_class_def) (simp add: example_model_def)

lemma episode_example: "episode example_model example_support example_query 2 1 3"
  unfolding episode_def by (intro conjI support_set_example query_set_example)

subsection \<open>The loss\<close>



subsection \<open>The accuracy\<close>

lemma card_spec_correct: "card (spec_correct n_class n_query dists) \<le> n_class * n_query"
proof -
  have "spec_correct n_class n_query dists \<subseteq> {..<n_class * n_query}"
    by (auto simp: spec_correct_def)
  then have "card (spec_correct n_class n_query dists) \<le> card {..<n_class * n_query}"
    by (intro card_mono) simp_all
  then show ?thesis by simp
qed

subsection \<open>Mismatched class counts\<close>

text \<open>
  C8, as amended: when the query set has another number of classes than the support
  set and its images have the model's size (with at least one pixel and one query per
  class), the support path runs, the reshape of the query tensor with the support's
  \<open>n_class\<close> raises InvalidArgumentError, and so does \<open>call\<close>.
\<close>

theorem call_class_mismatch:
  assumes "wf_model self" and "support_set self support n_class n_support"
    and "query_set self query n_class' n_query" and "n_class' \<noteq> n_class"
    and "0 < self_c self"
  shows "call self support query training = Inl InvalidArgumentError
       \<and> (\<exists>z_prototypes self'.
             embed_support self support n_class n_support = Inr (z_prototypes, self')
           \<and> tf_reshape query [int (n_class * n_query), int (self_w self'),
                  int (self_h self'), int (self_c self')] = Inl InvalidArgumentError)"
proof -
  have d0: "dim support 0 = Inr n_class" and d1: "dim support 1 = Inr n_support"
    and d2: "dim query 1 = Inr n_query"
    using assms(2,3) by (simp_all add: dim_def support_set_def query_set_def)
  obtain y where lab: "labels n_class n_query = Inr (y, tf_one_hot y n_class)"
    using labels_ok [of n_class n_query] by blast
  obtain zp self' where es: "embed_support self support n_class n_support = Inr (zp, self')"
    and fr: "self_w self' = self_w self" "self_h self' = self_h self" "self_c self' = self_c self"
    using embed_support_ok [OF assms(1,2)] by blast
  have q': "query_set self' query n_class' n_query"
    using assms(3) by (simp add: query_set_def fr)
  have pos: "0 < self_w self'" "0 < self_h self'" "0 < self_c self'"
    using assms(2,5) by (simp_all add: support_set_def fr)
  note mm = embed_query_mismatch [OF q' assms(4) pos]
  have "call self support query training = Inl InvalidArgumentError"
    by (simp only: call_def d0 d1 d2 lab es mm(2) bnd_Inr bnd_Inl case_prod_conv)
  then show ?thesis
    using es mm(1) by blast
qed

theorem call_class_mismatch_witness:
  "call example_model example_support example_query_one_class False = Inl InvalidArgumentError
   \<and> (\<exists>z_prototypes self'.
         embed_support example_model example_support 2 1 = Inr (z_prototypes, self')
       \<and> tf_reshape example_query_one_class [int (2 * 3), int (self_w self'),
              int (self_h self'), int (self_c self')] = Inl InvalidArgumentError)"
proof -
  have "(1::nat) \<noteq> 2" "0 < self_c example_model"
    by (simp_all add: example_model_def)
  from call_class_mismatch [OF wf_example_model support_set_example
      query_set_example_one_class this]
  show ?thesis .
qed

lemma tf_reshape_buf:
  assumes "\<forall>d\<in>set dims. 0 \<le> d" and "buf t = buf t'"
  shows "tf_reshape t dims = tf_reshape t' dims"
proof (cases "prod_list dims = int (length (buf t))")
  case True
  then show ?thesis
    using tf_reshape_plain [OF assms(1), of t] tf_reshape_plain [OF assms(1), of t'] assms(2)
    by simp
next
  case False
  then show ?thesis
    using tf_reshape_mismatch [OF assms(1), of t] tf_reshape_mismatch [OF assms(1), of t'] assms(2)
    by simp
qed

lemma call_query_buf:
  assumes "dim query 1 = dim query' 1" and "buf query = buf query'"
  shows "call self support query training = call self support query' training"
proof -
  have "embed_query s query n_class n_query = embed_query s query' n_class n_query"
    for s n_class n_query
    unfolding embed_query_def
    by (subst tf_reshape_buf [OF _ assms(2)]) simp_all
  then show ?thesis
    unfolding call_def by (simp only: assms(1))
qed

text \<open>
  C8, as stated, fails: the reshape only counts elements. A query tensor of one class
  block with images of 32 by 16 pixels has as many elements as the two class blocks
  of 16 by 16 pixels the support set asks for, and \<open>call\<close> returns.
\<close>

theorem call_class_mismatch_returns:
  "dim example_support 0 = Inr 2 \<and> dim example_query_wide 0 = Inr 1
   \<and> \<not> isl (call example_model example_support example_query_wide False)"
proof -
  have "call example_model example_support example_query_wide False
      = call example_model example_support example_query False"
    by (rule call_query_buf) (simp_all add: dim_def example_query_wide_def example_query_def full_def)
  moreover obtain r where "call example_model example_support example_query False = Inr r"
    using call_ok [OF wf_example_model episode_example, of False] by blast
  ultimately show ?thesis
    by (simp add: dim_def example_support_def example_query_wide_def full_def)
qed

subsection \<open>The query path changes nothing\<close>

lemma batch_norm_call_layer:
  "batch_norm_call layer x training = Inr r
     \<Longrightarrow> snd r = (if training then update_moving layer x else layer)"
  by (auto simp: batch_norm_call_def split: if_splits)

lemma index_list_Inr: "index_list xs i = Inr v \<Longrightarrow> i < length xs \<and> v = xs ! i"
  by (auto simp: index_list_def split: if_splits)

lemma block_inv:
  assumes "block i training self x = Inr (x', self')"
  shows "i < length (batch_norm_layers self)
       \<and> (\<exists>p. self' = self\<lparr>batch_norm_layers := (batch_norm_layers self)
               [i := if training then update_moving (batch_norm_layers self ! i) p
                     else batch_norm_layers self ! i]\<rparr>)"
proof -
  from assms have "\<exists>bn p r. index_list (batch_norm_layers self) i = Inr bn
      \<and> batch_norm_call bn p training = Inr r
      \<and> self' = self\<lparr>batch_norm_layers := (batch_norm_layers self)[i := snd r]\<rparr>"
    by (auto simp: block_def bnd_eq_Inr case_prod_unfold)
  then obtain bn p r where bn: "index_list (batch_norm_layers self) i = Inr bn"
    and call: "batch_norm_call bn p training = Inr r"
    and res: "self' = self\<lparr>batch_norm_layers := (batch_norm_layers self)[i := snd r]\<rparr>"
    by blast
  have i: "i < length (batch_norm_layers self)" and b: "bn = batch_norm_layers self ! i"
    using index_list_Inr [OF bn] by simp_all
  have "snd r = (if training then update_moving bn p else bn)"
    using call by (rule batch_norm_call_layer)
  then show ?thesis
    using i b res by auto
qed

lemma encoder_inference_inv:
  "encoder is False self x = Inr (x', self') \<Longrightarrow> self' = self"
proof (induction "is" arbitrary: self x)
  case Nil
  then show ?case by simp
next
  case (Cons i js)
  from Cons.prems obtain r where b: "block i False self x = Inr r"
    and rest: "(case r of (x, self) \<Rightarrow> encoder js False self x) = Inr (x', self')"
    by (auto simp: bnd_eq_Inr)
  obtain x1 s1 where r: "r = (x1, s1)" by (cases r)
  have "s1 = self"
    using block_inv [OF b [unfolded r]] by auto
  moreover have "self' = s1"
    using rest by (intro Cons.IH [of s1 x1]) (simp add: r)
  ultimately show ?case by simp
qed

lemma embed_query_inv:
  assumes "embed_query self query n_class n_query = Inr r"
  shows "snd r = self"
proof -
  from assms obtain x r' where enc: "encoder [0..<length (conv_layers self)] False self x = Inr r'"
    and s: "snd r = snd r'"
    by (auto simp: embed_query_def bnd_eq_Inr case_prod_unfold)
  have "encoder [0..<length (conv_layers self)] False self x = Inr (fst r', snd r')"
    using enc by simp
  then have "snd r' = self" by (rule encoder_inference_inv)
  then show ?thesis using s by simp
qed

subsection \<open>A call on the example model\<close>







subsection \<open>The round trip through save and load\<close>

text \<open>
  C6 fails on the code: \<open>save\<close> on the example model raises RecursionError and writes
  nothing, so the \<open>load\<close> that follows finds no file.
\<close>

theorem save_load_round_trip_fails:
  "save 1000 example_model ''model.h5'' (\<lambda>p. None) = (Inl RecursionError, \<lambda>p. None)
   \<and> load example_model ''model.h5''
        (snd (save 1000 example_model ''model.h5'' (\<lambda>p. None))) = Inl OSError"
  by (simp add: save_raises load_def)

subsection \<open>What a returning call has computed\<close>

lemma tf_reshape_nonneg_inv:
  assumes "\<forall>d\<in>set dims. 0 \<le> d" and "tf_reshape t dims = Inr t'"
  shows "shape t' = map nat dims \<and> buf t' = buf t"
proof (cases "prod_list dims = int (length (buf t))")
  case True
  then show ?thesis
    using assms(2) tf_reshape_plain [OF assms(1) True] by auto
next
  case False
  then show ?thesis
    using assms(2) tf_reshape_mismatch [OF assms(1) False] by simp
qed

lemma batch_norm_call_shape:
  "batch_norm_call layer x training = Inr r \<Longrightarrow> shape (fst r) = shape x"
  by (auto simp: batch_norm_call_def split: if_splits)

lemma block_shape:
  assumes "block i training self x = Inr r"
  shows "shape (fst r) \<noteq> [] \<and> hd (shape (fst r)) = hd (shape x)"
proof -
  from assms have "\<exists>cv c pl p bn q. conv2d_call cv x = Inr c \<and> max_pool2d_call pl c = Inr p
      \<and> batch_norm_call bn p training = Inr q \<and> fst r = fst q"
    by (auto simp: block_def bnd_eq_Inr case_prod_unfold; fastforce)
  then obtain cv c pl p bn q where c: "conv2d_call cv x = Inr c"
    and p: "max_pool2d_call pl c = Inr p"
    and q: "batch_norm_call bn p training = Inr q" and r: "fst r = fst q"
    by blast
  have x4: "length (shape x) = 4" and c': "c = conv2d_out cv x"
    using c by (auto simp: conv2d_call_def split: if_splits)
  have p': "p = max_pool2d_out c"
    using p by (auto simp: max_pool2d_call_def split: if_splits)
  have "shape (fst r) = shape p"
    using batch_norm_call_shape [OF q] r by simp
  moreover have "shape x \<noteq> []" using x4 by auto
  ultimately show ?thesis
    by (simp add: p' c' hd_conv_nth)
qed

lemma encoder_shape:
  "encoder is training self x = Inr r \<Longrightarrow> shape x \<noteq> []
     \<Longrightarrow> shape (fst r) \<noteq> [] \<and> hd (shape (fst r)) = hd (shape x)"
proof (induction "is" arbitrary: self x)
  case Nil
  then show ?case by auto
next
  case (Cons i js)
  from Cons.prems(1) obtain r1 where b: "block i training self x = Inr r1"
    and rest: "encoder js training (snd r1) (fst r1) = Inr r"
    by (auto simp: bnd_eq_Inr case_prod_unfold)
  note s1 = block_shape [OF b]
  from Cons.IH [OF rest] s1 show ?case by simp
qed

lemma flatten_call_shape:
  assumes "flatten_call x = Inr z"
  shows "shape x \<noteq> [] \<and> shape z = [hd (shape x), prod_list (tl (shape x))] \<and> buf z = buf x"
  using assms by (cases "shape x") (auto simp: flatten_call_def)

lemma embed_query_shape:
  assumes "embed_query self query n_class n_query = Inr r"
  shows "\<exists>d. shape (fst r) = [n_class * n_query, d]"
proof -
  let ?dims = "[int (n_class * n_query), int (self_w self), int (self_h self), int (self_c self)]"
  from assms obtain x e where x: "tf_reshape query ?dims = Inr x"
    and e: "encoder [0..<length (conv_layers self)] False self x = Inr e"
    and z: "flatten_call (fst e) = Inr (fst r)"
    by (auto simp: embed_query_def bnd_eq_Inr case_prod_unfold)
  have "shape x = map nat ?dims"
    using tf_reshape_nonneg_inv [OF _ x] by simp
  then have sx: "shape x \<noteq> []" "hd (shape x) = n_class * n_query"
    by (simp_all add: nat_mult_distrib)
  show ?thesis
    using encoder_shape [OF e sx(1)] flatten_call_shape [OF z] sx(2) by simp
qed

lemma tf_reduce_mean_shape:
  assumes "tf_reduce_mean t (int ax) = Inr m" and "ax < length (shape t)"
  shows "shape m = reduced_shape (shape t) ax \<and> wf_tensor m"
  using assms by (auto simp: tf_reduce_mean_def normalize_axis_def split: if_splits)

lemma embed_support_shape:
  assumes "embed_support self support n_class n_support = Inr r"
  shows "\<exists>d. shape (fst r) = [n_class, d]"
proof -
  from assms obtain z d z3 where
    z3: "tf_reshape z [int n_class, int n_support, int d] = Inr z3"
    and m: "tf_reduce_mean z3 1 = Inr (fst r)"
    by (auto simp: embed_support_def bnd_eq_Inr case_prod_unfold)
  have s3: "shape z3 = [n_class, n_support, d]"
    using tf_reshape_nonneg_inv [OF _ z3] by simp
  have "shape (fst r) = reduced_shape (shape z3) 1"
    using tf_reduce_mean_shape [of z3 1 "fst r"] m by (simp add: s3)
  then show ?thesis by (simp add: s3 reduced_shape_def)
qed

lemma broadcast_shape_3:
  assumes "broadcast_shape [n, m, a] [n, m, b] = Some sh"
  shows "\<exists>c. sh = [n, m, c]"
  using assms by (auto simp: broadcast_shape_def broadcast_rev_same split: if_splits)

lemma calc_euclidian_dists_shape:
  assumes x: "shape x = [n, a]" and y: "shape y = [m, b]"
    and r: "calc_euclidian_dists x y = Inr dists"
  shows "shape dists = [n, m] \<and> wf_tensor dists"
proof -
  from r obtain X Y S where X: "tf_tile \<lparr>shape = [n, 1, a], buf = buf x\<rparr> [1, m, 1] = Inr X"
    and Y: "tf_tile \<lparr>shape = [1, m, b], buf = buf y\<rparr> [n, 1, 1] = Inr Y"
    and S: "tf_subtract X Y = Inr S" and D: "tf_reduce_mean (tf_pow S 2) (int 2) = Inr dists"
    by (auto simp: calc_euclidian_dists_def bnd_eq_Inr dim_def tf_expand_dims_def x y)
  have sX: "shape X = [n, m, a]" using X by (auto simp: tf_tile_def)
  have sY: "shape Y = [n, m, b]" using Y by (auto simp: tf_tile_def)
  obtain sh where b: "broadcast_shape [n, m, a] [n, m, b] = Some sh" and sS: "shape S = sh"
    using S by (auto simp: tf_subtract_def broadcast_op_def sX sY split: option.splits)
  obtain c where "shape S = [n, m, c]"
    using broadcast_shape_3 [OF b] sS by auto
  then show ?thesis
    using tf_reduce_mean_shape [OF D] by (simp add: reduced_shape_def)
qed

lemma loss_acc_positive:
  assumes r: "loss_acc y y_onehot n_class n_query dists = Inr res"
    and sy: "shape y_onehot = [n_class, n_query, c]"
  shows "0 < n_class \<and> 0 < n_query"
proof (rule ccontr)
  assume "\<not> (0 < n_class \<and> 0 < n_query)"
  then have z: "n_class * n_query = 0" by auto
  from r obtain L L3 W PQ PQ1 m where
    L3: "tf_reshape L [int n_class, int n_query, - 1] = Inr L3"
    and W: "tf_multiply y_onehot L3 = Inr W"
    and PQ: "tf_reduce_sum W (- 1) = Inr PQ"
    and PQ1: "tf_reshape PQ [- 1] = Inr PQ1"
    and m: "tf_reduce_mean_all PQ1 = Inr m"
    by (auto simp: loss_acc_def bnd_eq_Inr)
  from L3 z obtain k where s3: "shape L3 = [n_class, n_query, k]"
    by (auto simp: tf_reshape_def Let_def split: if_splits)
  obtain sh where b: "broadcast_shape [n_class, n_query, c] [n_class, n_query, k] = Some sh"
    and sW: "W = tabulate sh (\<lambda>idx. elem y_onehot (bidx (shape y_onehot) idx)
                                   * elem L3 (bidx (shape L3) idx))"
    using W by (auto simp: tf_multiply_def broadcast_op_def sy s3 split: option.splits)
  obtain c' where sh: "sh = [n_class, n_query, c']"
    using broadcast_shape_3 [OF b] by auto
  have "PQ = tabulate [n_class, n_query]
      (\<lambda>idx. sum_list (map (\<lambda>k. elem W (along 2 idx k)) [0..<c']))"
    using PQ by (simp add: tf_reduce_sum_def normalize_axis_def sW sh reduced_shape_def)
  then have "buf PQ = []"
    using z by (simp add: tabulate_def)
  then have "buf PQ1 = []"
    using PQ1 by (auto simp: tf_reshape_def Let_def split: if_splits)
  then show False
    using m by (simp add: tf_reduce_mean_all_def)
qed

lemma call_returns_inv:
  assumes "call self support query training = Inr ((loss, acc), self')"
  shows "\<exists>n_class n_query dists.
           dim support 0 = Inr n_class \<and> dim query 1 = Inr n_query
         \<and> 0 < n_class \<and> 0 < n_query
         \<and> call_dists self support query = Inr (dists, self')
         \<and> shape dists = [n_class * n_query, n_class]
         \<and> loss = spec_loss n_class n_query dists
         \<and> (n_class \<le> 2 ^ 31 \<longrightarrow> acc = spec_accuracy n_class n_query dists)"
proof -
  from assms obtain n_class n_support n_query lb r1 r3 dists where
    d0: "dim support 0 = Inr n_class" and d1: "dim support 1 = Inr n_support"
    and d2: "dim query 1 = Inr n_query"
    and lab: "labels n_class n_query = Inr lb"
    and es: "embed_support self support n_class n_support = Inr r1"
    and eq: "embed_query (snd r1) query n_class n_query = Inr r3"
    and cd: "calc_euclidian_dists (fst r3) (fst r1) = Inr dists"
    and la: "loss_acc (fst lb) (snd lb) n_class n_query dists = Inr (loss, acc)"
    and s: "self' = snd r3"
    by (auto simp: call_def bnd_eq_Inr case_prod_unfold)
  obtain y where lab': "labels n_class n_query = Inr (y, tf_one_hot y n_class)"
    and sy: "shape y = [n_class, n_query]" and wy: "wf_tensor y"
    and yv: "\<And>k i. k < n_class \<Longrightarrow> i < n_query \<Longrightarrow> elem y [k, i] = int k"
    using labels_ok [of n_class n_query] by blast
  have lb: "lb = (y, tf_one_hot y n_class)" using lab lab' by simp
  obtain a where sq: "shape (fst r3) = [n_class * n_query, a]"
    using embed_query_shape [OF eq] by blast
  obtain b where sp: "shape (fst r1) = [n_class, b]"
    using embed_support_shape [OF es] by blast
  have sd: "shape dists = [n_class * n_query, n_class]" and wd: "wf_tensor dists"
    using calc_euclidian_dists_shape [OF sq sp cd] by simp_all
  have la': "loss_acc y (tf_one_hot y n_class) n_class n_query dists = Inr (loss, acc)"
    using la by (simp add: lb)
  have "shape (tf_one_hot y n_class) = [n_class, n_query, n_class]"
    by (simp add: tf_one_hot_def sy)
  then have pos: "0 < n_class" "0 < n_query"
    using loss_acc_positive [OF la'] by simp_all
  obtain acc' where "loss_acc y (tf_one_hot y n_class) n_class n_query dists
                 = Inr (spec_loss n_class n_query dists, acc')"
    and "n_class \<le> 2 ^ 31 \<longrightarrow> acc' = spec_accuracy n_class n_query dists"
    using loss_acc_ok [OF sd wd sy wy yv pos] by blast
  then have v: "loss = spec_loss n_class n_query dists"
    "n_class \<le> 2 ^ 31 \<longrightarrow> acc = spec_accuracy n_class n_query dists"
    using la' by simp_all
  have "call_dists self support query = Inr (dists, self')"
    using d0 d1 d2 es eq cd s by (simp add: call_dists_def case_prod_unfold)
  then show ?thesis
    using d0 d2 pos sd v by blast
qed

subsection \<open>What the two loops compute\<close>

lemma block_result:
  assumes "block i training self x = Inr (x', self')"
  shows "i < length (batch_norm_layers self)
       \<and> x' = (if training then training_mode else inference_mode)
                (batch_norm_layers self ! i) (pooled self i x)
       \<and> self' = self\<lparr>batch_norm_layers := (batch_norm_layers self)
               [i := if training then update_moving (batch_norm_layers self ! i) (pooled self i x)
                     else batch_norm_layers self ! i]\<rparr>"
proof -
  from assms have "\<exists>cv c pl p bn q. index_list (conv_layers self) i = Inr cv
      \<and> conv2d_call cv x = Inr c \<and> max_pool2d_call pl c = Inr p
      \<and> index_list (batch_norm_layers self) i = Inr bn
      \<and> batch_norm_call bn p training = Inr q \<and> x' = fst q
      \<and> self' = self\<lparr>batch_norm_layers := (batch_norm_layers self)[i := snd q]\<rparr>"
    by (auto simp: block_def bnd_eq_Inr case_prod_unfold; fastforce)
  then obtain cv c pl p bn q where cv: "index_list (conv_layers self) i = Inr cv"
    and c: "conv2d_call cv x = Inr c" and p: "max_pool2d_call pl c = Inr p"
    and bn: "index_list (batch_norm_layers self) i = Inr bn"
    and q: "batch_norm_call bn p training = Inr q" and x': "x' = fst q"
    and s': "self' = self\<lparr>batch_norm_layers := (batch_norm_layers self)[i := snd q]\<rparr>"
    by blast
  have cv': "cv = conv_layers self ! i" using index_list_Inr [OF cv] by simp
  have i: "i < length (batch_norm_layers self)" and bn': "bn = batch_norm_layers self ! i"
    using index_list_Inr [OF bn] by simp_all
  have c': "c = conv2d_out cv x"
    using c by (auto simp: conv2d_call_def split: if_splits)
  have p': "p = pooled self i x"
    using p by (auto simp: max_pool2d_call_def pooled_def c' cv' split: if_splits)
  have "fst q = (if training then training_mode else inference_mode) bn p"
    using q by (auto simp: batch_norm_call_def training_mode_def inference_mode_def split: if_splits)
  moreover have "snd q = (if training then update_moving bn p else bn)"
    using q by (rule batch_norm_call_layer)
  ultimately show ?thesis
    using i x' s' by (simp add: bn' p')
qed

lemma spec_encoding_cong:
  assumes "conv_layers s = conv_layers self"
    and "\<forall>i\<in>set is. batch_norm_layers s ! i = batch_norm_layers self ! i"
  shows "spec_encoding mode is s x = spec_encoding mode is self x"
  using assms(2)
proof (induction "is" arbitrary: x)
  case Nil
  then show ?case by simp
next
  case (Cons i js)
  then show ?case by (simp add: pooled_def assms(1))
qed

lemma encoder_inference_result:
  "encoder is False self x = Inr (e, self')
     \<Longrightarrow> e = spec_encoding inference_mode is self x \<and> self' = self"
proof (induction "is" arbitrary: x)
  case Nil
  then show ?case by simp
next
  case (Cons i js)
  from Cons.prems obtain x1 s1 where b: "block i False self x = Inr (x1, s1)"
    and rest: "encoder js False s1 x1 = Inr (e, self')"
    by (auto simp: bnd_eq_Inr)
  from block_result [OF b] have x1: "x1 = inference_mode (batch_norm_layers self ! i) (pooled self i x)"
    and s1: "s1 = self" by simp_all
  from Cons.IH [of x1] rest show ?case
    by (simp add: s1 x1)
qed

lemma encoder_training_result:
  assumes "encoder is True self x = Inr (e, self')" and "distinct is"
  shows "e = spec_encoding training_mode is self x
       \<and> self_w self' = self_w self \<and> self_h self' = self_h self \<and> self_c self' = self_c self
       \<and> conv_layers self' = conv_layers self \<and> max_pool_layers self' = max_pool_layers self
       \<and> length (batch_norm_layers self') = length (batch_norm_layers self)
       \<and> (\<forall>j<length is. batch_norm_layers self' ! (is ! j)
              = update_moving (batch_norm_layers self ! (is ! j))
                  (pooled self (is ! j) (spec_encoding training_mode (take j is) self x)))
       \<and> (\<forall>k. k \<notin> set is \<longrightarrow> batch_norm_layers self' ! k = batch_norm_layers self ! k)"
  using assms
proof (induction "is" arbitrary: self x)
  case Nil
  then show ?case by simp
next
  case (Cons i js)
  from Cons.prems(1) obtain x1 s1 where b: "block i True self x = Inr (x1, s1)"
    and rest: "encoder js True s1 x1 = Inr (e, self')"
    by (auto simp: bnd_eq_Inr)
  let ?p = "pooled self i x"
  from block_result [OF b] have i: "i < length (batch_norm_layers self)"
    and x1: "x1 = training_mode (batch_norm_layers self ! i) ?p"
    and s1: "s1 = self\<lparr>batch_norm_layers := (batch_norm_layers self)
               [i := update_moving (batch_norm_layers self ! i) ?p]\<rparr>"
    by simp_all
  have d: "distinct js" and nj: "i \<notin> set js" using Cons.prems(2) by simp_all
  note ih = Cons.IH [OF rest d]
  have cs: "conv_layers s1 = conv_layers self" by (simp add: s1)
  have same: "batch_norm_layers s1 ! k = batch_norm_layers self ! k" if "k \<noteq> i" for k
    using that by (simp add: s1)
  have enc: "spec_encoding training_mode ks s1 y = spec_encoding training_mode ks self y"
    if "i \<notin> set ks" for ks y
  proof (rule spec_encoding_cong [OF cs], rule ballI)
    fix k assume "k \<in> set ks"
    then have "k \<noteq> i" using that by auto
    then show "batch_norm_layers s1 ! k = batch_norm_layers self ! k" by (rule same)
  qed
  have e: "e = spec_encoding training_mode (i # js) self x"
    using ih enc [OF nj] by (simp add: x1)
  have at_i: "batch_norm_layers self' ! i = update_moving (batch_norm_layers self ! i) ?p"
    using ih nj i by (simp add: s1)
  have moved: "batch_norm_layers self' ! ((i # js) ! j)
              = update_moving (batch_norm_layers self ! ((i # js) ! j))
                  (pooled self ((i # js) ! j) (spec_encoding training_mode (take j (i # js)) self x))"
    if j: "j < length (i # js)" for j
  proof (cases j)
    case 0
    then show ?thesis using at_i by simp
  next
    case (Suc j')
    then have j': "j' < length js" using j by simp
    then have ne: "js ! j' \<noteq> i" using nj by auto
    have nt: "i \<notin> set (take j' js)" using nj by (auto dest: in_set_takeD)
    have "batch_norm_layers self' ! (js ! j')
        = update_moving (batch_norm_layers s1 ! (js ! j'))
            (pooled s1 (js ! j') (spec_encoding training_mode (take j' js) s1 x1))"
      using ih j' by blast
    then show ?thesis
      using same [OF ne] enc [OF nt] by (simp add: Suc pooled_def cs x1)
  qed
  have kept: "batch_norm_layers self' ! k = batch_norm_layers self ! k" if "k \<notin> set (i # js)" for k
    using ih that same [of k] by simp
  show ?case
    using e ih moved kept by (simp add: s1)
qed



lemma embed_support_result:
  assumes "embed_support self support n_class n_support = Inr (z_prototypes, self')"
    and "dim support 0 = Inr n_class" and "dim support 1 = Inr n_support"
  shows "\<exists>z_support z_stacked.
           encoder [0..<length (conv_layers self)] True self (support_images self support)
             = Inr (spec_encoding training_mode [0..<length (conv_layers self)] self
                      (support_images self support), self')
         \<and> flatten_call (spec_encoding training_mode [0..<length (conv_layers self)] self
                           (support_images self support)) = Inr z_support
         \<and> tf_reshape z_support [int (shape support ! 0), int (shape support ! 1),
                                 int (shape z_support ! 1)] = Inr z_stacked
         \<and> tf_reduce_mean z_stacked 1 = Inr z_prototypes"
proof -
  let ?n = "length (conv_layers self)"
  let ?dims = "[int (n_class * n_support), int (self_w self), int (self_h self), int (self_c self)]"
  from assms(1) obtain x0 r zs zd z3 where rs: "tf_reshape support ?dims = Inr x0"
    and en: "encoder [0..<?n] True self x0 = Inr r"
    and fl: "flatten_call (fst r) = Inr zs"
    and zd: "dim zs (length (shape zs) - 1) = Inr zd"
    and z3: "tf_reshape zs [int n_class, int n_support, int zd] = Inr z3"
    and zp: "tf_reduce_mean z3 1 = Inr z_prototypes"
    and s: "self' = snd r"
    by (auto simp: embed_support_def bnd_eq_Inr case_prod_unfold)
  have n: "n_class = shape support ! 0" "n_support = shape support ! 1"
    using assms(2,3) by (auto simp: dim_def split: if_splits)
  have "shape x0 = map nat ?dims \<and> buf x0 = buf support"
    using tf_reshape_nonneg_inv [OF _ rs] by simp
  then have x0: "x0 = support_images self support"
    by (simp add: support_images_def n nat_mult_distrib)
  have en': "encoder [0..<?n] True self x0 = Inr (fst r, self')"
    using en s by simp
  have e: "fst r = spec_encoding training_mode [0..<?n] self x0"
    using encoder_training_result [OF en' distinct_upt] by simp
  have "length (shape zs) = 2"
    using flatten_call_shape [OF fl] by simp
  then have "zd = shape zs ! 1"
    using zd by (auto simp: dim_def split: if_splits)
  then show ?thesis
    using en' fl z3 zp unfolding e x0 n by blast
qed

lemma embed_query_result:
  assumes "embed_query self query n_class n_query = Inr (z_query, self')"
    and "dim query 1 = Inr n_query"
  shows "self' = self
       \<and> flatten_call (spec_encoding inference_mode [0..<length (conv_layers self)] self
            \<lparr>shape = [n_class * shape query ! 1, self_w self, self_h self, self_c self],
             buf = buf query\<rparr>) = Inr z_query"
proof -
  let ?n = "length (conv_layers self)"
  let ?dims = "[int (n_class * n_query), int (self_w self), int (self_h self), int (self_c self)]"
  from assms(1) obtain x0 r where rs: "tf_reshape query ?dims = Inr x0"
    and en: "encoder [0..<?n] False self x0 = Inr r"
    and fl: "flatten_call (fst r) = Inr z_query"
    and s: "self' = snd r"
    by (auto simp: embed_query_def bnd_eq_Inr case_prod_unfold)
  have n: "n_query = shape query ! 1"
    using assms(2) by (auto simp: dim_def split: if_splits)
  have "shape x0 = map nat ?dims \<and> buf x0 = buf query"
    using tf_reshape_nonneg_inv [OF _ rs] by simp
  then have x0: "x0 = \<lparr>shape = [n_class * shape query ! 1, self_w self, self_h self, self_c self],
             buf = buf query\<rparr>"
    by (simp add: n nat_mult_distrib)
  have en': "encoder [0..<?n] False self x0 = Inr (fst r, self')"
    using en s by simp
  from encoder_inference_result [OF en'] fl show ?thesis
    unfolding x0 by simp
qed

text \<open>
  C4: \<open>call\<close> never reads its \<open>training\<close> argument, so its whole result is the same
  for both values. Whenever it returns, the support loop has run the encoder with
  \<open>training=True\<close>, and what it yields is the encoding in training mode: every block
  normalised with the statistics of its own batch; the prototypes are the class means
  of that embedding. The query loop has run the encoder with \<open>training=False\<close> on the
  model as the support loop left it, and what it yields is the encoding in inference
  mode: every block normalised with the running statistics of its layer. The distances
  that the loss and the accuracy are computed from are those between these two
  embeddings. And on every episode \<open>call\<close> returns.
\<close>

theorem call_ignores_training:
  "call self support query training = call self support query training'
   \<and> (\<forall>result self'. call self support query training = Inr (result, self') \<longrightarrow>
        (\<exists>z_support z_stacked z_prototypes z_query dists.
            encoder [0..<length (conv_layers self)] True self (support_images self support)
              = Inr (spec_encoding training_mode [0..<length (conv_layers self)] self
                       (support_images self support), self')
          \<and> flatten_call (spec_encoding training_mode [0..<length (conv_layers self)] self
                            (support_images self support)) = Inr z_support
          \<and> tf_reshape z_support [int (shape support ! 0), int (shape support ! 1),
                                  int (shape z_support ! 1)] = Inr z_stacked
          \<and> tf_reduce_mean z_stacked 1 = Inr z_prototypes
          \<and> encoder [0..<length (conv_layers self)] False self' (query_images self support query)
              = Inr (spec_encoding inference_mode [0..<length (conv_layers self)] self'
                       (query_images self support query), self')
          \<and> flatten_call (spec_encoding inference_mode [0..<length (conv_layers self)] self'
                            (query_images self support query)) = Inr z_query
          \<and> calc_euclidian_dists z_query z_prototypes = Inr dists
          \<and> call_dists self support query = Inr (dists, self')))
   \<and> (wf_model self \<and> episode self support query n_class n_support n_query \<longrightarrow>
        (\<exists>result self'. call self support query training = Inr (result, self')))"
proof (intro conjI allI impI)
  show "call self support query training = call self support query training'"
    by (simp add: call_def)
next
  fix result self'
  assume run: "call self support query training = Inr (result, self')"
  let ?n = "length (conv_layers self)"
  from run obtain n_class n_support n_query r1 r3 dists where
    d0: "dim support 0 = Inr n_class" and d1: "dim support 1 = Inr n_support"
    and d2: "dim query 1 = Inr n_query"
    and es: "embed_support self support n_class n_support = Inr r1"
    and eq: "embed_query (snd r1) query n_class n_query = Inr r3"
    and cd: "calc_euclidian_dists (fst r3) (fst r1) = Inr dists"
    and s: "self' = snd r3"
    by (auto simp: call_def bnd_eq_Inr case_prod_unfold)
  have s1: "snd r3 = snd r1" using eq by (rule embed_query_inv)
  have es': "embed_support self support n_class n_support = Inr (fst r1, self')"
    using es s s1 by (simp add: prod_eq_iff)
  have eq': "embed_query self' query n_class n_query = Inr (fst r3, self')"
    using eq s s1 by (simp add: prod_eq_iff)
  from embed_support_result [OF es' d0 d1] obtain z_support z_stacked where
    a: "encoder [0..<?n] True self (support_images self support)
              = Inr (spec_encoding training_mode [0..<?n] self (support_images self support), self')"
    and b: "flatten_call (spec_encoding training_mode [0..<?n] self (support_images self support))
              = Inr z_support"
    and c: "tf_reshape z_support [int (shape support ! 0), int (shape support ! 1),
                                  int (shape z_support ! 1)] = Inr z_stacked"
    and d: "tf_reduce_mean z_stacked 1 = Inr (fst r1)"
    by blast
  note fr = encoder_training_result [OF a distinct_upt]
  have n: "n_class = shape support ! 0"
    using d0 by (auto simp: dim_def split: if_splits)
  have qi: "\<lparr>shape = [n_class * shape query ! 1, self_w self', self_h self', self_c self'],
             buf = buf query\<rparr> = query_images self support query"
    using fr by (simp add: query_images_def n)
  have len: "length (conv_layers self') = ?n" using fr by simp
  from embed_query_result [OF eq' d2] have
    f: "flatten_call (spec_encoding inference_mode [0..<?n] self' (query_images self support query))
          = Inr (fst r3)"
    unfolding qi len by simp
  from eq' obtain x0 r where rs: "tf_reshape query [int (n_class * n_query), int (self_w self'),
        int (self_h self'), int (self_c self')] = Inr x0"
    and en: "encoder [0..<?n] False self' x0 = Inr r" and sr: "self' = snd r"
    by (auto simp: embed_query_def bnd_eq_Inr case_prod_unfold len)
  have nq: "n_query = shape query ! 1"
    using d2 by (auto simp: dim_def split: if_splits)
  have "shape x0 = map nat [int (n_class * n_query), int (self_w self'),
        int (self_h self'), int (self_c self')] \<and> buf x0 = buf query"
    using tf_reshape_nonneg_inv [OF _ rs] by simp
  then have x0: "x0 = query_images self support query"
    using fr by (simp add: query_images_def n nq nat_mult_distrib)
  have en': "encoder [0..<?n] False self' (query_images self support query) = Inr (fst r, self')"
    using en sr unfolding x0 by simp
  have e: "encoder [0..<?n] False self' (query_images self support query)
              = Inr (spec_encoding inference_mode [0..<?n] self' (query_images self support query), self')"
    using encoder_inference_result [OF en'] en' by simp
  have g: "call_dists self support query = Inr (dists, self')"
    using d0 d1 d2 es eq cd s by (simp add: call_dists_def case_prod_unfold)
  show "\<exists>z_support z_stacked z_prototypes z_query dists.
            encoder [0..<?n] True self (support_images self support)
              = Inr (spec_encoding training_mode [0..<?n] self (support_images self support), self')
          \<and> flatten_call (spec_encoding training_mode [0..<?n] self (support_images self support))
              = Inr z_support
          \<and> tf_reshape z_support [int (shape support ! 0), int (shape support ! 1),
                                  int (shape z_support ! 1)] = Inr z_stacked
          \<and> tf_reduce_mean z_stacked 1 = Inr z_prototypes
          \<and> encoder [0..<?n] False self' (query_images self support query)
              = Inr (spec_encoding inference_mode [0..<?n] self' (query_images self support query), self')
          \<and> flatten_call (spec_encoding inference_mode [0..<?n] self' (query_images self support query))
              = Inr z_query
          \<and> calc_euclidian_dists z_query z_prototypes = Inr dists
          \<and> call_dists self support query = Inr (dists, self')"
    using a b c d e f cd g by blast
next
  assume "wf_model self \<and> episode self support query n_class n_support n_query"
  then show "\<exists>result self'. call self support query training = Inr (result, self')"
    using call_ok [of self support query n_class n_support n_query training] by blast
qed


theorem call_ignores_training_witness:
  "call example_model example_support example_query True
     = call example_model example_support example_query False
   \<and> (\<exists>result self' z_support z_prototypes z_query dists.
         call example_model example_support example_query True = Inr (result, self')
       \<and> flatten_call (spec_encoding training_mode [0..<4] example_model
                         (support_images example_model example_support)) = Inr z_support
       \<and> flatten_call (spec_encoding inference_mode [0..<4] self'
                         (query_images example_model example_support example_query)) = Inr z_query
       \<and> calc_euclidian_dists z_query z_prototypes = Inr dists
       \<and> call_dists example_model example_support example_query = Inr (dists, self'))"
proof -
  note t = call_ignores_training [of example_model example_support example_query True False 2 1 3]
  have l: "length (conv_layers example_model) = 4" by (simp add: example_model_def)
  from t wf_example_model episode_example
  obtain result self' where
    r: "call example_model example_support example_query True = Inr (result, self')"
    by blast
  with t obtain z_support z_prototypes z_query dists where
    "flatten_call (spec_encoding training_mode [0..<4] example_model
                         (support_images example_model example_support)) = Inr z_support"
    "flatten_call (spec_encoding inference_mode [0..<4] self'
                         (query_images example_model example_support example_query)) = Inr z_query"
    "calc_euclidian_dists z_query z_prototypes = Inr dists"
    "call_dists example_model example_support example_query = Inr (dists, self')"
    unfolding l by blast
  then show ?thesis
    using t r by blast
qed

subsection \<open>What a call changes\<close>






subsection \<open>The loss and the accuracy of a call\<close>

lemma dims_example:
  "dim example_support 0 = Inr n \<Longrightarrow> n = 2" "dim example_query 1 = Inr m \<Longrightarrow> m = 3"
  by (simp_all add: dim_def example_support_def example_query_def)

text \<open>
  C1: whenever \<open>call\<close> returns, its loss is the negative mean, over all
  \<open>n_class * n_query\<close> queries, of the log-softmax (over the prototype axis, of the
  negated distances) at the query's true class, the class block the query lies in;
  and on every episode \<open>call\<close> returns.
\<close>

theorem call_loss:
  "(\<forall>loss acc self'.
      call self support query training = Inr ((loss, acc), self') \<longrightarrow>
        (\<exists>n_class n_query dists.
            dim support 0 = Inr n_class \<and> dim query 1 = Inr n_query
          \<and> call_dists self support query = Inr (dists, self')
          \<and> shape dists = [n_class * n_query, n_class]
          \<and> loss = spec_loss n_class n_query dists))
   \<and> (wf_model self \<and> episode self support query n_class n_support n_query \<longrightarrow>
        (\<exists>loss acc self'. call self support query training = Inr ((loss, acc), self')))"
proof (intro conjI allI impI)
  fix loss acc self'
  assume "call self support query training = Inr ((loss, acc), self')"
  from call_returns_inv [OF this]
  show "\<exists>n_class n_query dists.
            dim support 0 = Inr n_class \<and> dim query 1 = Inr n_query
          \<and> call_dists self support query = Inr (dists, self')
          \<and> shape dists = [n_class * n_query, n_class]
          \<and> loss = spec_loss n_class n_query dists"
    by blast
next
  assume "wf_model self \<and> episode self support query n_class n_support n_query"
  then show "\<exists>loss acc self'. call self support query training = Inr ((loss, acc), self')"
    using call_ok [of self support query n_class n_support n_query training] by blast
qed

theorem call_loss_witness:
  "\<exists>loss acc self' dists.
     call example_model example_support example_query False = Inr ((loss, acc), self')
   \<and> call_dists example_model example_support example_query = Inr (dists, self')
   \<and> shape dists = [2 * 3, 2] \<and> loss = spec_loss 2 3 dists"
proof -
  note t = call_loss [of example_model example_support example_query False 2 1 3]
  from t wf_example_model episode_example
  obtain loss acc self' where
    r: "call example_model example_support example_query False = Inr ((loss, acc), self')"
    by blast
  with t obtain n_class n_query dists where
    "dim example_support 0 = Inr n_class" "dim example_query 1 = Inr n_query"
    "call_dists example_model example_support example_query = Inr (dists, self')"
    "shape dists = [n_class * n_query, n_class]" "loss = spec_loss n_class n_query dists"
    by blast
  then show ?thesis
    using r dims_example by blast
qed

text \<open>
  C3: whenever \<open>call\<close> returns, its accuracy is the fraction of the
  \<open>n_class * n_query\<close> queries whose first class of highest log-probability is their
  true class, so it is a multiple of \<open>1 / (n_class * n_query)\<close> between 0 and 1; and on
  every episode \<open>call\<close> returns. The class indices are compared as int32, which holds
  every index when \<open>n_class\<close> is at most \<open>2 ^ 31\<close>.
\<close>

theorem call_accuracy:
  "(\<forall>loss acc self'.
      call self support query training = Inr ((loss, acc), self') \<longrightarrow>
        (\<exists>n_class n_query dists.
            dim support 0 = Inr n_class \<and> dim query 1 = Inr n_query
          \<and> call_dists self support query = Inr (dists, self')
          \<and> (n_class \<le> 2 ^ 31 \<longrightarrow>
                acc = spec_accuracy n_class n_query dists
              \<and> (\<exists>m\<le>n_class * n_query. acc = real m / real (n_class * n_query))
              \<and> 0 \<le> acc \<and> acc \<le> 1)))
   \<and> (wf_model self \<and> episode self support query n_class n_support n_query \<longrightarrow>
        (\<exists>loss acc self'. call self support query training = Inr ((loss, acc), self')))"
proof (intro conjI allI impI)
  fix loss acc self'
  assume "call self support query training = Inr ((loss, acc), self')"
  from call_returns_inv [OF this]
  obtain n_class n_query dists where d: "dim support 0 = Inr n_class" "dim query 1 = Inr n_query"
    and pos: "0 < n_class" "0 < n_query"
    and cd: "call_dists self support query = Inr (dists, self')"
    and a: "n_class \<le> 2 ^ 31 \<longrightarrow> acc = spec_accuracy n_class n_query dists"
    by blast
  let ?a = "spec_accuracy n_class n_query dists"
  have m: "\<exists>m\<le>n_class * n_query. ?a = real m / real (n_class * n_query)"
    using card_spec_correct [of n_class n_query dists]
    by (intro exI [of _ "card (spec_correct n_class n_query dists)"]) (simp add: spec_accuracy_def)
  have lo: "0 \<le> ?a"
    by (simp add: spec_accuracy_def)
  have "real (card (spec_correct n_class n_query dists)) \<le> real (n_class * n_query)"
    using card_spec_correct [of n_class n_query dists] by (simp only: of_nat_le_iff)
  then have hi: "?a \<le> 1"
    using pos by (simp add: spec_accuracy_def)
  show "\<exists>n_class n_query dists.
            dim support 0 = Inr n_class \<and> dim query 1 = Inr n_query
          \<and> call_dists self support query = Inr (dists, self')
          \<and> (n_class \<le> 2 ^ 31 \<longrightarrow>
                acc = spec_accuracy n_class n_query dists
              \<and> (\<exists>m\<le>n_class * n_query. acc = real m / real (n_class * n_query))
              \<and> 0 \<le> acc \<and> acc \<le> 1)"
    using d cd a m lo hi by (intro exI [of _ n_class] exI [of _ n_query] exI [of _ dists]) simp
next
  assume "wf_model self \<and> episode self support query n_class n_support n_query"
  then show "\<exists>loss acc self'. call self support query training = Inr ((loss, acc), self')"
    using call_ok [of self support query n_class n_support n_query training] by blast
qed

theorem call_accuracy_witness:
  "\<exists>loss acc self' dists.
     call example_model example_support example_query True = Inr ((loss, acc), self')
   \<and> call_dists example_model example_support example_query = Inr (dists, self')
   \<and> acc = spec_accuracy 2 3 dists
   \<and> (\<exists>m\<le>2 * 3. acc = real m / real (2 * 3)) \<and> 0 \<le> acc \<and> acc \<le> 1"
proof -
  note t = call_accuracy [of example_model example_support example_query True 2 1 3]
  from t wf_example_model episode_example
  obtain loss acc self' where
    r: "call example_model example_support example_query True = Inr ((loss, acc), self')"
    by blast
  with t obtain n_class n_query dists where
    d: "dim example_support 0 = Inr n_class" "dim example_query 1 = Inr n_query"
    and cd: "call_dists example_model example_support example_query = Inr (dists, self')"
    and a: "n_class \<le> 2 ^ 31 \<longrightarrow>
                acc = spec_accuracy n_class n_query dists
              \<and> (\<exists>m\<le>n_class * n_query. acc = real m / real (n_class * n_query))
              \<and> 0 \<le> acc \<and> acc \<le> 1"
    by blast
  have n: "n_class = 2" "n_query = 3" using d dims_example by blast+
  have "(2::nat) \<le> 2 ^ 31" by simp
  with a have "acc = spec_accuracy 2 3 dists
      \<and> (\<exists>m\<le>2 * 3. acc = real m / real (2 * 3)) \<and> 0 \<le> acc \<and> acc \<le> 1"
    unfolding n by blast
  then show ?thesis
    using r cd by blast
qed



subsection \<open>A call on no queries\<close>





end
